theory Spec2Isabelle
  imports
    Main
    "HOL-Library.Sublist"
    "HOL-Library.Char_ord"
    "HOL-Library.List_Lexorder"
begin

section \<open>The build orchestrator \<^verbatim>\<open>scripts/build_python.py\<close>\<close>

text \<open>
  The script walks a fixed list of package names, removes stale build directories of each
  package that has a \<^verbatim>\<open>pyproject.toml\<close>, runs \<^verbatim>\<open>python -m build\<close> in it, records
  the package as built or failed, prints a summary and returns 0 or 1.

  Everything the script touches outside itself is made explicit:
  \<^item> the file system is a value of type \<open>fs\<close>, threaded through every step;
  \<^item> standard output is the list \<open>out\<close> of the printed messages, in order;
  \<^item> a Python exception is the result \<open>Inl (e, st)\<close>: the exception and the state it
    leaves behind;
  \<^item> the child process, the codec that reads its output, and the faults of the operating
    system that the script cannot foresee (permissions), are fields of the record \<open>env\<close>.

  What is left out: symbolic links; a child that never ends; a failure of writing to
  standard output; signals; errors of the operating system other than those of the type
  \<open>oserror\<close> below.
\<close>

subsection \<open>Paths and the file system\<close>

text \<open>
  A path is the list of its components below the file-system root, as \<^verbatim>\<open>Path.parts\<close>
  has them; \<^verbatim>\<open>p / "name"\<close> is \<open>p @ [name]\<close> and \<^verbatim>\<open>p.parent\<close> is \<open>butlast p\<close>.
  The file system is the list of its entries, in the order a directory scan yields
  them; every entry carries the size that \<^verbatim>\<open>stat().st_size\<close> reports. Entries lie
  below directories only. Symbolic links are not modelled.
\<close>

type_synonym path = "string list"

datatype node = Dir nat | File nat

type_synonym fs = "(path \<times> node) list"

fun st_size :: "node \<Rightarrow> nat" where
  "st_size (Dir n) = n"
| "st_size (File n) = n"

definition present :: "fs \<Rightarrow> path \<Rightarrow> bool" where
  \<comment> \<open>there is an entry at the path; the root is always there\<close>
  "present fs p = (p = [] \<or> map_of fs p \<noteq> None)"

definition str_path :: "path \<Rightarrow> string" where
  \<comment> \<open>\<^verbatim>\<open>str(path)\<close> of an absolute POSIX path.\<close>
  "str_path p = (if p = [] then ''/'' else concat (map (\<lambda>c. ''/'' @ c) p))"

subsection \<open>Exceptions, the child process and the environment\<close>

datatype oserror = FileNotFoundError | NotADirectoryError | FileExistsError | PermissionError

datatype exn =
    CalledProcessError int "string list" string string
    \<comment> \<open>return code, command, captured stdout, captured stderr\<close>
  | OSError oserror
  | UnicodeDecodeError

text \<open>
  What the operating system does with a command: either the process cannot be started
  (the executable is missing or may not be executed), or it runs to its end, with a
  return code, the bytes of its complete standard output and standard error, and the
  file system it leaves.
\<close>

datatype proc =
    Exited int string string fs
  | CannotStart oserror

record env =
  script_file :: path
  \<comment> \<open>\<^verbatim>\<open>__file__\<close>, absolute\<close>
  sys_executable :: string
  dir_size :: nat
  \<comment> \<open>the size \<^verbatim>\<open>stat\<close> reports for a directory just created\<close>
  spawn :: "string list \<Rightarrow> path \<Rightarrow> fs \<Rightarrow> proc"
  \<comment> \<open>command, working directory, file system at the start\<close>
  decode :: "string \<Rightarrow> string option"
  \<comment> \<open>how \<^verbatim>\<open>text=True\<close> reads captured bytes with the codec of the locale;
      \<open>None\<close> where the codec raises \<^verbatim>\<open>UnicodeDecodeError\<close>\<close>
  denied :: "fs \<Rightarrow> path \<Rightarrow> bool"
  \<comment> \<open>whether access to a path is refused, the path lying below a directory that the
      user may not search\<close>
  unreadable :: "fs \<Rightarrow> path \<Rightarrow> bool"
  \<comment> \<open>whether the user may not list the directory at a path\<close>
  rm_fault :: "path \<Rightarrow> (oserror \<times> path list) option"
  \<comment> \<open>whether removing the tree at a path fails, and which entries below it are
      gone by then\<close>
  mkdir_fault :: "path \<Rightarrow> oserror option"
  \<comment> \<open>whether creating a directory at a path is refused\<close>

record completed_process =
  returncode :: int
  stdout :: string
  stderr :: string

definition stat :: "env \<Rightarrow> fs \<Rightarrow> path \<Rightarrow> oserror + node" where
  \<comment> \<open>\<^verbatim>\<open>Path.stat()\<close>. A path below a file is reported as missing, which makes no
      difference to the callers.\<close>
  "stat e fs p =
     (if denied e fs p then Inl PermissionError
      else if p = [] then Inr (Dir (dir_size e))
      else (case map_of fs p of None \<Rightarrow> Inl FileNotFoundError | Some n \<Rightarrow> Inr n))"

definition ignore_error :: "oserror \<Rightarrow> bool" where
  \<comment> \<open>\<^verbatim>\<open>pathlib._ignore_error\<close>: the errors that mean that the entry is not there\<close>
  "ignore_error err = (err = FileNotFoundError \<or> err = NotADirectoryError)"

definition exists_path :: "env \<Rightarrow> fs \<Rightarrow> path \<Rightarrow> oserror + bool" where
  \<comment> \<open>\<^verbatim>\<open>Path.exists()\<close> as \<^verbatim>\<open>pathlib\<close> of CPython 3.11 has it: it calls \<^verbatim>\<open>stat\<close>,
      answers \<open>False\<close> on an error that \<open>ignore_error\<close> accepts, and lets every other
      error through.\<close>
  "exists_path e fs p =
     (case stat e fs p of
        Inl err \<Rightarrow> if ignore_error err then Inr False else Inl err
      | Inr _ \<Rightarrow> Inr True)"

definition subprocess_run ::
  "env \<Rightarrow> string list \<Rightarrow> path \<Rightarrow> fs \<Rightarrow> (exn \<times> fs) + (completed_process \<times> fs)" where
  \<comment> \<open>\<^verbatim>\<open>subprocess.run(cmd, cwd=cwd, check=True, capture_output=True, text=True)\<close>:
      the captured bytes are decoded before the return code is looked at.\<close>
  "subprocess_run e cmd cwd fs =
     (case spawn e cmd cwd fs of
        CannotStart err \<Rightarrow> Inl (OSError err, fs)
      | Exited rc so se fs' \<Rightarrow>
          (case decode e so of
             None \<Rightarrow> Inl (UnicodeDecodeError, fs')
           | Some out_text \<Rightarrow>
               (case decode e se of
                  None \<Rightarrow> Inl (UnicodeDecodeError, fs')
                | Some err_text \<Rightarrow>
                    if rc \<noteq> 0 then Inl (CalledProcessError rc cmd out_text err_text, fs')
                    else Inr (\<lparr>returncode = rc, stdout = out_text, stderr = err_text\<rparr>, fs'))))"

definition rmtree :: "env \<Rightarrow> fs \<Rightarrow> path \<Rightarrow> (oserror \<times> fs) + fs" where
  \<comment> \<open>\<^verbatim>\<open>shutil.rmtree(p)\<close>: the entry at \<open>p\<close> and everything below it goes; on a fault
      only some entries strictly below \<open>p\<close> are gone.\<close>
  "rmtree e fs p =
     (case map_of fs p of
        None \<Rightarrow> Inl (FileNotFoundError, fs)
      | Some (File _) \<Rightarrow> Inl (NotADirectoryError, fs)
      | Some (Dir _) \<Rightarrow>
          (case rm_fault e p of
             None \<Rightarrow> Inr (filter (\<lambda>(q, n). \<not> prefix p q) fs)
           | Some (err, gone) \<Rightarrow>
               Inl (err, filter (\<lambda>(q, n). \<not> (strict_prefix p q \<and> q \<in> set gone)) fs)))"

fun make_dirs :: "env \<Rightarrow> path \<Rightarrow> fs \<Rightarrow> path list \<Rightarrow> (oserror \<times> fs) + fs" where
  "make_dirs e target fs [] = Inr fs"
| "make_dirs e target fs (d # ds) =
     (case map_of fs d of
        Some (Dir _) \<Rightarrow> make_dirs e target fs ds
      | Some (File _) \<Rightarrow>
          Inl (if d = target then FileExistsError else NotADirectoryError, fs)
      | None \<Rightarrow>
          (case mkdir_fault e d of
             Some err \<Rightarrow> Inl (err, fs)
           | None \<Rightarrow> make_dirs e target (fs @ [(d, Dir (dir_size e))]) ds))"

definition mkdir_parents :: "env \<Rightarrow> fs \<Rightarrow> path \<Rightarrow> (oserror \<times> fs) + fs" where
  \<comment> \<open>\<^verbatim>\<open>p.mkdir(parents=True, exist_ok=True)\<close>: every missing ancestor is created,
      outermost first; an existing directory is left alone; where access to \<open>p\<close> is
      refused, so are its creation and the test that it is a directory.\<close>
  "mkdir_parents e fs p =
     (if denied e fs p then Inl (PermissionError, fs)
      else make_dirs e p fs (map (\<lambda>n. take n p) [1..<Suc (length p)]))"

definition glob_whl :: "env \<Rightarrow> fs \<Rightarrow> path \<Rightarrow> path list" where
  \<comment> \<open>\<^verbatim>\<open>d.glob("*.whl")\<close>: the entries directly in \<open>d\<close> whose name ends in \<^verbatim>\<open>.whl\<close>,
      in scan order. The scan of a directory that may not be listed raises
      \<^verbatim>\<open>PermissionError\<close>, which \<^verbatim>\<open>pathlib\<close> catches: the result is then empty.\<close>
  "glob_whl e fs d =
     (if unreadable e fs d then []
      else filter (\<lambda>q. q \<noteq> [] \<and> butlast q = d \<and> suffix ''.whl'' (last q)) (map fst fs))"

subsection \<open>Standard output and the state of a run\<close>

text \<open>One constructor for each \<^verbatim>\<open>print\<close> of the script, carrying what it interpolates.\<close>

datatype event =
    Section string
    \<comment> \<open>\<^verbatim>\<open>print_section(msg)\<close>\<close>
  | OutputDirectory path
    \<comment> \<open>\<^verbatim>\<open>Output directory: {dist_dir}\<close>\<close>
  | Skipping string
    \<comment> \<open>\<^verbatim>\<open>Skipping {package} (no pyproject.toml)\<close>\<close>
  | Building string
    \<comment> \<open>\<^verbatim>\<open>Building {package}...\<close>\<close>
  | BuiltSuccessfully string
    \<comment> \<open>\<^verbatim>\<open>print_success("{package} built successfully")\<close>\<close>
  | BuildFailed string
    \<comment> \<open>\<^verbatim>\<open>print_error("{package} build failed:")\<close>\<close>
  | Output string
    \<comment> \<open>\<^verbatim>\<open>print(output)\<close>\<close>
  | SuccessHeader nat
    \<comment> \<open>\<^verbatim>\<open>Successfully built {n} package(s):\<close>\<close>
  | SuccessItem string
  | FailedHeader nat
    \<comment> \<open>\<^verbatim>\<open>Failed to build {n} package(s):\<close>\<close>
  | FailedItem string
  | WheelHeader
    \<comment> \<open>\<^verbatim>\<open>Built wheel files:\<close>\<close>
  | WheelItem string nat
    \<comment> \<open>file name and size in bytes (the script prints the size in MB)\<close>
  | InstallHeader
  | InstallCommand path
    \<comment> \<open>\<^verbatim>\<open>pip install {dist_dir}/*.whl\<close>\<close>

record state =
  files :: fs
  built_packages :: "string list"
  failed_packages :: "string list"
  out :: "event list"

definition emit :: "event list \<Rightarrow> state \<Rightarrow> state" where
  "emit es st = st\<lparr>out := out st @ es\<rparr>"

subsection \<open>The script\<close>

definition run_command ::
  "env \<Rightarrow> string list \<Rightarrow> path \<Rightarrow> fs \<Rightarrow> (exn \<times> fs) + ((bool \<times> string) \<times> fs)" where
  "run_command e cmd cwd fs =
     (case subprocess_run e cmd cwd fs of
        Inr (result, fs') \<Rightarrow> Inr ((True, stdout result), fs')
      | Inl (CalledProcessError rc c so se, fs') \<Rightarrow> Inr ((False, se), fs')
      | Inl (OSError err, fs') \<Rightarrow> Inl (OSError err, fs')
      | Inl (UnicodeDecodeError, fs') \<Rightarrow> Inl (UnicodeDecodeError, fs'))"

definition script_dir :: "env \<Rightarrow> path" where
  "script_dir e = butlast (script_file e)"

definition workspace_root :: "env \<Rightarrow> path" where
  "workspace_root e = butlast (script_dir e)"

definition python_dir :: "env \<Rightarrow> path" where
  "python_dir e = workspace_root e @ [''clients'', ''python'']"

definition dist_dir :: "env \<Rightarrow> path" where
  "dist_dir e = workspace_root e @ [''dist'', ''python'']"

definition venv_python :: "env \<Rightarrow> path" where
  "venv_python e = python_dir e @ [''.venv'', ''bin'', ''python'']"

definition python_cmd :: "env \<Rightarrow> fs \<Rightarrow> oserror + string" where
  "python_cmd e fs =
     (case exists_path e fs (venv_python e) of
        Inl err \<Rightarrow> Inl err
      | Inr found \<Rightarrow> Inr (if found then str_path (venv_python e) else sys_executable e))"

definition packages :: "string list" where
  "packages = [''core'', ''idp'', ''notification'']"

definition cleanup_dirs :: "string \<Rightarrow> string list" where
  "cleanup_dirs package =
     [''build'', ''dist'', package @ ''.egg-info'',
      ''geniustechspace_'' @ package @ ''.egg-info'']"

fun clean_previous_builds ::
  "env \<Rightarrow> path \<Rightarrow> string list \<Rightarrow> fs \<Rightarrow> (oserror \<times> fs) + fs" where
  "clean_previous_builds e package_dir [] fs = Inr fs"
| "clean_previous_builds e package_dir (cleanup_dir # rest) fs =
     (let cleanup_path = package_dir @ [cleanup_dir] in
      case exists_path e fs cleanup_path of
        Inl err \<Rightarrow> Inl (err, fs)
      | Inr found \<Rightarrow>
          if found then
            (case rmtree e fs cleanup_path of
               Inl x \<Rightarrow> Inl x
             | Inr fs' \<Rightarrow> clean_previous_builds e package_dir rest fs')
          else clean_previous_builds e package_dir rest fs)"

definition eligible :: "env \<Rightarrow> fs \<Rightarrow> string \<Rightarrow> oserror + bool" where
  \<comment> \<open>the negation of the test that guards \<^verbatim>\<open>continue\<close>; \<^verbatim>\<open>or\<close> does not evaluate
      its second operand when the first is true\<close>
  "eligible e fs package =
     (case exists_path e fs (python_dir e @ [package]) of
        Inl err \<Rightarrow> Inl err
      | Inr dir_found \<Rightarrow>
          if \<not> dir_found then Inr False
          else
            (case exists_path e fs (python_dir e @ [package] @ [''pyproject.toml'']) of
               Inl err \<Rightarrow> Inl err
             | Inr descriptor_found \<Rightarrow> Inr (\<not> (\<not> dir_found \<or> \<not> descriptor_found))))"

definition build_cmd :: "env \<Rightarrow> string \<Rightarrow> string list" where
  "build_cmd e pycmd = [pycmd, ''-m'', ''build'', ''--wheel'', ''--outdir'', str_path (dist_dir e)]"

definition build_package :: "env \<Rightarrow> string \<Rightarrow> string \<Rightarrow> state \<Rightarrow> (exn \<times> state) + state" where
  \<comment> \<open>one turn of the loop over \<^verbatim>\<open>packages\<close>\<close>
  "build_package e pycmd package st =
     (let package_dir = python_dir e @ [package] in
      case eligible e (files st) package of
        Inl err \<Rightarrow> Inl (OSError err, st)
      | Inr ok \<Rightarrow>
          if \<not> ok then Inr (emit [Skipping package] st)
          else
            let st1 = emit [Building package] st in
            case clean_previous_builds e package_dir (cleanup_dirs package) (files st1) of
              Inl (err, fs') \<Rightarrow> Inl (OSError err, st1\<lparr>files := fs'\<rparr>)
            | Inr fs2 \<Rightarrow>
                (case run_command e (build_cmd e pycmd) package_dir fs2 of
                   Inl (x, fs') \<Rightarrow> Inl (x, st1\<lparr>files := fs'\<rparr>)
                 | Inr ((success, output), fs3) \<Rightarrow>
                     if success then
                       Inr ((emit [BuiltSuccessfully package] (st1\<lparr>files := fs3\<rparr>))
                              \<lparr>built_packages := built_packages st1 @ [package]\<rparr>)
                     else
                       Inr ((emit [BuildFailed package, Output output] (st1\<lparr>files := fs3\<rparr>))
                              \<lparr>failed_packages := failed_packages st1 @ [package]\<rparr>)))"

fun build_packages :: "env \<Rightarrow> string \<Rightarrow> string list \<Rightarrow> state \<Rightarrow> (exn \<times> state) + state" where
  "build_packages e pycmd [] st = Inr st"
| "build_packages e pycmd (package # rest) st =
     (case build_package e pycmd package st of
        Inl x \<Rightarrow> Inl x
      | Inr st' \<Rightarrow> build_packages e pycmd rest st')"

fun list_wheels :: "env \<Rightarrow> fs \<Rightarrow> path list \<Rightarrow> (oserror \<times> event list) + event list" where
  \<comment> \<open>the loop over the sorted wheel files; an error comes with the lines printed so far\<close>
  "list_wheels e fs [] = Inr []"
| "list_wheels e fs (whl # rest) =
     (case stat e fs whl of
        Inl err \<Rightarrow> Inl (err, [])
      | Inr n \<Rightarrow>
          (case list_wheels e fs rest of
             Inl (err, printed) \<Rightarrow> Inl (err, WheelItem (last whl) (st_size n) # printed)
           | Inr printed \<Rightarrow> Inr (WheelItem (last whl) (st_size n) # printed)))"

definition wheel_listing :: "env \<Rightarrow> fs \<Rightarrow> (oserror \<times> event list) + event list" where
  \<comment> \<open>the block under \<^verbatim>\<open># List built files\<close>\<close>
  "wheel_listing e fs =
     (case exists_path e fs (dist_dir e) of
        Inl err \<Rightarrow> Inl (err, [])
      | Inr found \<Rightarrow>
          if found then
            (let whl_files = glob_whl e fs (dist_dir e) in
             if whl_files \<noteq> [] then
               (case list_wheels e fs (sort whl_files) of
                  Inl (err, printed) \<Rightarrow> Inl (err, WheelHeader # printed)
                | Inr printed \<Rightarrow>
                    Inr ([WheelHeader] @ printed @ [InstallHeader, InstallCommand (dist_dir e)]))
             else Inr [])
          else Inr [])"

definition summary :: "env \<Rightarrow> state \<Rightarrow> (exn \<times> state) + state" where
  "summary e st =
     (let st1 = emit [Section ''Build Summary''] st;
          st2 = (if built_packages st1 \<noteq> [] then
                   emit (SuccessHeader (length (built_packages st1))
                         # map SuccessItem (built_packages st1)) st1
                 else st1);
          st3 = (if failed_packages st2 \<noteq> [] then
                   emit (FailedHeader (length (failed_packages st2))
                         # map FailedItem (failed_packages st2)) st2
                 else st2)
      in case wheel_listing e (files st3) of
           Inl (err, printed) \<Rightarrow> Inl (OSError err, emit printed st3)
         | Inr listing \<Rightarrow> Inr (emit listing st3))"

definition start :: "env \<Rightarrow> fs \<Rightarrow> (exn \<times> state) + state" where
  \<comment> \<open>\<^verbatim>\<open>main\<close> from the banner up to the loop: output directory, empty result lists\<close>
  "start e fs =
     (let st = \<lparr>files = fs, built_packages = [], failed_packages = [],
                out = [Section ''Building Python Packages for Distribution'']\<rparr> in
      case mkdir_parents e fs (dist_dir e) of
        Inl (err, fs') \<Rightarrow> Inl (OSError err, st\<lparr>files := fs'\<rparr>)
      | Inr fs' \<Rightarrow> Inr (emit [OutputDirectory (dist_dir e)] (st\<lparr>files := fs'\<rparr>)))"

definition main :: "env \<Rightarrow> fs \<Rightarrow> (exn \<times> state) + (int \<times> state)" where
  "main e fs =
     (case python_cmd e fs of
        Inl err \<Rightarrow>
          Inl (OSError err, \<lparr>files = fs, built_packages = [], failed_packages = [], out = []\<rparr>)
      | Inr pycmd \<Rightarrow>
          (case start e fs of
             Inl x \<Rightarrow> Inl x
           | Inr st0 \<Rightarrow>
               (case build_packages e pycmd packages st0 of
                  Inl x \<Rightarrow> Inl x
                | Inr st1 \<Rightarrow>
                    (case summary e st1 of
                       Inl x \<Rightarrow> Inl x
                     | Inr st2 \<Rightarrow> Inr (if failed_packages st2 = [] then 0 else 1, st2)))))"

definition exit_status :: "env \<Rightarrow> fs \<Rightarrow> int" where
  \<comment> \<open>\<^verbatim>\<open>sys.exit(main())\<close>; the interpreter exits with 1 on an uncaught exception\<close>
  "exit_status e fs = (case main e fs of Inl _ \<Rightarrow> 1 | Inr (rc, _) \<Rightarrow> rc)"


subsection \<open>Notions used to state the properties\<close>

text \<open>
  The candidates that pass the test of the loop when their turn comes. The file system
  seen by that test is the one the earlier turns have left, so the list is computed
  along the run.
\<close>

fun eligible_at_turn :: "env \<Rightarrow> string \<Rightarrow> string list \<Rightarrow> state \<Rightarrow> string list" where
  "eligible_at_turn e pycmd [] st = []"
| "eligible_at_turn e pycmd (package # rest) st =
     (if eligible e (files st) package = Inr True then [package] else [])
     @ (case build_package e pycmd package st of
          Inl _ \<Rightarrow> []
        | Inr st' \<Rightarrow> eligible_at_turn e pycmd rest st')"

definition eligible_subprojects :: "env \<Rightarrow> fs \<Rightarrow> string list" where
  "eligible_subprojects e fs =
     (case python_cmd e fs of
        Inl _ \<Rightarrow> []
      | Inr pycmd \<Rightarrow>
          (case start e fs of
             Inl _ \<Rightarrow> []
           | Inr st0 \<Rightarrow> eligible_at_turn e pycmd packages st0))"

text \<open>The packages whose turn standard output announces, in the order printed.\<close>

fun announced :: "event list \<Rightarrow> string list" where
  "announced [] = []"
| "announced (Skipping p # es) = p # announced es"
| "announced (Building p # es) = p # announced es"
| "announced (_ # es) = announced es"

text \<open>The file names of the wheel listing, in the order printed.\<close>

fun listed_wheels :: "event list \<Rightarrow> string list" where
  "listed_wheels [] = []"
| "listed_wheels (WheelItem n s # es) = n # listed_wheels es"
| "listed_wheels (_ # es) = listed_wheels es"

text \<open>The file system after a removal, whether it succeeded or raised.\<close>

definition left_behind :: "(oserror \<times> fs) + fs \<Rightarrow> fs" where
  "left_behind r = (case r of Inl (_, fs) \<Rightarrow> fs | Inr fs \<Rightarrow> fs)"

text \<open>The state in which a run ends, whether \<open>main\<close> returned or an exception left it.\<close>

definition final_state :: "(exn \<times> state) + (int \<times> state) \<Rightarrow> state" where
  "final_state r = (case r of Inl (_, st) \<Rightarrow> st | Inr (_, st) \<Rightarrow> st)"

subsection \<open>Concrete workspaces\<close>

text \<open>
  A workspace \<^verbatim>\<open>/w\<close> in which \<^verbatim>\<open>core\<close> has a descriptor and a stale \<^verbatim>\<open>build\<close>
  directory, \<^verbatim>\<open>idp\<close> has no descriptor, \<^verbatim>\<open>notification\<close> has a descriptor, and
  the output directory holds a wheel of an earlier run.
\<close>

definition demo_fs :: fs where
  "demo_fs =
    [([''w''], Dir 4096),
     ([''w'', ''clients''], Dir 4096),
     ([''w'', ''clients'', ''python''], Dir 4096),
     ([''w'', ''clients'', ''python'', ''core''], Dir 4096),
     ([''w'', ''clients'', ''python'', ''core'', ''pyproject.toml''], File 300),
     ([''w'', ''clients'', ''python'', ''core'', ''build''], Dir 4096),
     ([''w'', ''clients'', ''python'', ''core'', ''build'', ''lib''], File 10),
     ([''w'', ''clients'', ''python'', ''idp''], Dir 4096),
     ([''w'', ''clients'', ''python'', ''notification''], Dir 4096),
     ([''w'', ''clients'', ''python'', ''notification'', ''pyproject.toml''], File 320),
     ([''w'', ''dist''], Dir 4096),
     ([''w'', ''dist'', ''python''], Dir 4096),
     ([''w'', ''dist'', ''python'', ''old-0.0.9-py3-none-any.whl''], File 900)]"

text \<open>The same workspace once the stale directory of \<^verbatim>\<open>core\<close> is removed.\<close>

definition demo_fs_clean :: fs where
  "demo_fs_clean =
    [([''w''], Dir 4096),
     ([''w'', ''clients''], Dir 4096),
     ([''w'', ''clients'', ''python''], Dir 4096),
     ([''w'', ''clients'', ''python'', ''core''], Dir 4096),
     ([''w'', ''clients'', ''python'', ''core'', ''pyproject.toml''], File 300),
     ([''w'', ''clients'', ''python'', ''idp''], Dir 4096),
     ([''w'', ''clients'', ''python'', ''notification''], Dir 4096),
     ([''w'', ''clients'', ''python'', ''notification'', ''pyproject.toml''], File 320),
     ([''w'', ''dist''], Dir 4096),
     ([''w'', ''dist'', ''python''], Dir 4096),
     ([''w'', ''dist'', ''python'', ''old-0.0.9-py3-none-any.whl''], File 900)]"

text \<open>... and once the wheel of \<^verbatim>\<open>core\<close> is written.\<close>

definition demo_fs1 :: fs where
  "demo_fs1 =
     demo_fs_clean @ [([''w'', ''dist'', ''python'', ''core-0.1.0-py3-none-any.whl''], File 2048)]"

text \<open>
  The build tool: in \<^verbatim>\<open>core\<close> it writes a wheel and exits with 0, anywhere else it
  exits with 1 and a message on standard error.
\<close>

definition demo_spawn :: "string list \<Rightarrow> path \<Rightarrow> fs \<Rightarrow> proc" where
  "demo_spawn cmd cwd fs =
     (if cwd = [''w'', ''clients'', ''python'', ''core''] then
        Exited 0 ''ok'' []
          (fs @ [([''w'', ''dist'', ''python'', ''core-0.1.0-py3-none-any.whl''], File 2048)])
      else Exited 1 [] ''missing dependency X'' fs)"

text \<open>The ASCII codec: it raises on every byte above 127.\<close>

definition ascii_decode :: "string \<Rightarrow> string option" where
  "ascii_decode bs = (if list_ex digit7 bs then None else Some bs)"

definition demo_env_with ::
  "(string list \<Rightarrow> path \<Rightarrow> fs \<Rightarrow> proc) \<Rightarrow> (path \<Rightarrow> (oserror \<times> path list) option)
     \<Rightarrow> (fs \<Rightarrow> path \<Rightarrow> bool) \<Rightarrow> env" where
  "demo_env_with sp rf dn =
     \<lparr>script_file = [''w'', ''scripts'', ''build_python.py''],
      sys_executable = ''/usr/bin/python3'', dir_size = 4096,
      spawn = sp, decode = ascii_decode, denied = dn, unreadable = (\<lambda>fs p. False),
      rm_fault = rf, mkdir_fault = (\<lambda>p. None)\<rparr>"

definition demo_env :: env where
  "demo_env = demo_env_with demo_spawn (\<lambda>p. None) (\<lambda>fs p. False)"


text \<open>
  The same machine with a build tool that exits with 1 after writing the single byte
  \<^verbatim>\<open>0xFF\<close> to standard error.
\<close>

definition garbled_env :: env where
  "garbled_env =
     demo_env_with (\<lambda>cmd cwd fs. Exited 1 [] [CHR 0xFF] fs) (\<lambda>p. None) (\<lambda>fs p. False)"

text \<open>
  The same machine with a build tool that always exits with 1, and where the directory
  of \<^verbatim>\<open>idp\<close> may not be searched: the \<^verbatim>\<open>stat\<close> of the directory is answered, the
  one of its descriptor is refused.
\<close>

definition denied_env :: env where
  "denied_env =
     demo_env_with (\<lambda>cmd cwd fs. Exited 1 [] ''boom'' fs) (\<lambda>p. None)
       (\<lambda>fs p. p = [''w'', ''clients'', ''python'', ''idp'', ''pyproject.toml''])"

text \<open>
  The same machine where the stale \<^verbatim>\<open>build\<close> directory of \<^verbatim>\<open>core\<close> may not be
  removed: its content goes, the directory itself stays.
\<close>

definition locked_env :: env where
  "locked_env =
     demo_env_with demo_spawn
       (\<lambda>p. if p = [''w'', ''clients'', ''python'', ''core'', ''build'']
            then Some (PermissionError, [[''w'', ''clients'', ''python'', ''core'', ''build'', ''lib'']])
            else None)
       (\<lambda>fs p. False)"

definition locked_fs :: fs where
  "locked_fs =
    [([''w''], Dir 4096),
     ([''w'', ''clients''], Dir 4096),
     ([''w'', ''clients'', ''python''], Dir 4096),
     ([''w'', ''clients'', ''python'', ''core''], Dir 4096),
     ([''w'', ''clients'', ''python'', ''core'', ''pyproject.toml''], File 300),
     ([''w'', ''clients'', ''python'', ''core'', ''build''], Dir 4096),
     ([''w'', ''clients'', ''python'', ''idp''], Dir 4096),
     ([''w'', ''clients'', ''python'', ''notification''], Dir 4096),
     ([''w'', ''clients'', ''python'', ''notification'', ''pyproject.toml''], File 320),
     ([''w'', ''dist''], Dir 4096),
     ([''w'', ''dist'', ''python''], Dir 4096),
     ([''w'', ''dist'', ''python'', ''old-0.0.9-py3-none-any.whl''], File 900)]"

text \<open>The states of the run on \<open>demo_fs\<close>: before the loop, and after each turn.\<close>

definition demo_st0 :: state where
  "demo_st0 = \<lparr>files = demo_fs, built_packages = [], failed_packages = [],
     out = [Section ''Building Python Packages for Distribution'',
            OutputDirectory [''w'', ''dist'', ''python'']]\<rparr>"

definition demo_st1 :: state where
  "demo_st1 = \<lparr>files = demo_fs1, built_packages = [''core''], failed_packages = [],
     out = out demo_st0 @ [Building ''core'', BuiltSuccessfully ''core'']\<rparr>"

definition demo_st2 :: state where
  "demo_st2 = demo_st1\<lparr>out := out demo_st1 @ [Skipping ''idp'']\<rparr>"

definition demo_st3 :: state where
  "demo_st3 = \<lparr>files = demo_fs1, built_packages = [''core''], failed_packages = [''notification''],
     out = out demo_st2 @ [Building ''notification'', BuildFailed ''notification'',
                           Output ''missing dependency X'']\<rparr>"

definition demo_listing :: "event list" where
  "demo_listing =
     [WheelHeader,
      WheelItem ''core-0.1.0-py3-none-any.whl'' 2048,
      WheelItem ''old-0.0.9-py3-none-any.whl'' 900,
      InstallHeader, InstallCommand [''w'', ''dist'', ''python'']]"

definition demo_final :: state where
  "demo_final = demo_st3\<lparr>out := out demo_st3 @
     [Section ''Build Summary'', SuccessHeader 1, SuccessItem ''core'',
      FailedHeader 1, FailedItem ''notification''] @ demo_listing\<rparr>"

text \<open>The states in which the faulty machines leave the run.\<close>

definition abort_at_core :: state where
  "abort_at_core = demo_st0\<lparr>files := demo_fs_clean, out := out demo_st0 @ [Building ''core'']\<rparr>"

definition denied_abort :: state where
  "denied_abort = \<lparr>files = demo_fs_clean, built_packages = [], failed_packages = [''core''],
     out = out demo_st0 @ [Building ''core'', BuildFailed ''core'', Output ''boom'']\<rparr>"

definition locked_abort :: state where
  "locked_abort = demo_st0\<lparr>files := locked_fs, out := out demo_st0 @ [Building ''core'']\<rparr>"

text \<open>A workspace in which no candidate has a descriptor and nothing was ever built.\<close>

definition bare_fs :: fs where
  "bare_fs =
    [([''w''], Dir 4096),
     ([''w'', ''clients''], Dir 4096),
     ([''w'', ''clients'', ''python''], Dir 4096),
     ([''w'', ''clients'', ''python'', ''core''], Dir 4096)]"

definition bare_st0 :: state where
  "bare_st0 = \<lparr>files = bare_fs @ [([''w'', ''dist''], Dir 4096), ([''w'', ''dist'', ''python''], Dir 4096)],
     built_packages = [], failed_packages = [],
     out = [Section ''Building Python Packages for Distribution'',
            OutputDirectory [''w'', ''dist'', ''python'']]\<rparr>"

definition bare_final :: state where
  "bare_final = bare_st0\<lparr>out := out bare_st0 @
     [Skipping ''core'', Skipping ''idp'', Skipping ''notification'', Section ''Build Summary'']\<rparr>"

text \<open>
  A workspace in which no candidate has a descriptor and the output directory holds a
  wheel of an earlier run, on a machine where the output directory may not be listed.
\<close>

definition stale_fs :: fs where
  "stale_fs =
     bare_fs @ [([''w'', ''dist''], Dir 4096), ([''w'', ''dist'', ''python''], Dir 4096),
                ([''w'', ''dist'', ''python'', ''old-0.0.9-py3-none-any.whl''], File 900)]"

definition unreadable_env :: env where
  "unreadable_env = demo_env\<lparr>unreadable := (\<lambda>fs p. p = [''w'', ''dist'', ''python''])\<rparr>"

definition stale_final :: state where
  "stale_final = \<lparr>files = stale_fs, built_packages = [], failed_packages = [],
     out = [Section ''Building Python Packages for Distribution'',
            OutputDirectory [''w'', ''dist'', ''python''],
            Skipping ''core'', Skipping ''idp'', Skipping ''notification'',
            Section ''Build Summary'']\<rparr>"


section \<open>Properties of the steps\<close>

lemma build_packages_append:
  "build_packages e c (xs @ ys) st =
     (case build_packages e c xs st of Inl x \<Rightarrow> Inl x | Inr st' \<Rightarrow> build_packages e c ys st')"
  by (induction xs arbitrary: st) (auto split: sum.splits)

lemma build_package_skip:
  "eligible e (files st) p = Inr False \<Longrightarrow>
     build_package e c p st = Inr (st\<lparr>out := out st @ [Skipping p]\<rparr>)"
  by (simp add: build_package_def emit_def)

lemma build_package_raise:
  "eligible e (files st) p = Inl err \<Longrightarrow> build_package e c p st = Inl (OSError err, st)"
  by (simp add: build_package_def)

lemma build_package_Inr:
  assumes "build_package e c p st = Inr st'"
  shows "(eligible e (files st) p = Inr False \<and> files st' = files st \<and> out st' = out st @ [Skipping p]
            \<and> built_packages st' = built_packages st \<and> failed_packages st' = failed_packages st)
       \<or> (eligible e (files st) p = Inr True \<and> out st' = out st @ [Building p, BuiltSuccessfully p]
            \<and> built_packages st' = built_packages st @ [p] \<and> failed_packages st' = failed_packages st)
       \<or> (eligible e (files st) p = Inr True \<and> (\<exists>d. out st' = out st @ [Building p, BuildFailed p, Output d])
            \<and> built_packages st' = built_packages st \<and> failed_packages st' = failed_packages st @ [p])"
  using assms
  by (auto simp: build_package_def emit_def Let_def split: if_splits sum.splits prod.splits)


lemma exists_path_eq:
  "exists_path e fs p = (if denied e fs p then Inl PermissionError else Inr (present fs p))"
  by (simp add: exists_path_def stat_def ignore_error_def present_def split: option.splits)

lemma summary_cases:
  assumes "summary e st = Inr st' \<or> summary e st = Inl (x, st')"
  shows "files st' = files st \<and> built_packages st' = built_packages st
       \<and> failed_packages st' = failed_packages st
       \<and> (\<exists>tail. out st' = out st @ Section ''Build Summary'' # tail)"
  using assms
  by (auto simp: summary_def emit_def Let_def split: sum.splits prod.splits if_splits)

lemma summary_Inr:
  assumes "summary e st = Inr st'"
  shows "\<exists>l. wheel_listing e (files st') = Inr l \<and> suffix l (out st')"
  using assms
  by (auto simp: summary_def emit_def Let_def suffix_def split: sum.splits prod.splits if_splits)

lemma main_Inr:
  "main e fs = Inr (rc, st) \<longleftrightarrow>
     (\<exists>c st0 st1. python_cmd e fs = Inr c \<and> start e fs = Inr st0
        \<and> build_packages e c packages st0 = Inr st1
        \<and> summary e st1 = Inr st \<and> rc = (if failed_packages st = [] then 0 else 1))"
  by (auto simp: main_def split: sum.splits)


lemma start_Inr:
  "start e fs = Inr st0 \<Longrightarrow> built_packages st0 = [] \<and> failed_packages st0 = []
     \<and> out st0 = [Section ''Building Python Packages for Distribution'', OutputDirectory (dist_dir e)]"
  by (auto simp: start_def emit_def Let_def split: sum.splits prod.splits)


lemma eligible_at_turn_subseq: "subseq (eligible_at_turn e c pkgs st) pkgs"
  by (induction pkgs arbitrary: st) (auto split: sum.splits)



lemma loop_lists:
  "build_packages e c pkgs st = Inr st' \<Longrightarrow>
     \<exists>bs fs. built_packages st' = built_packages st @ bs \<and> failed_packages st' = failed_packages st @ fs
        \<and> subseq bs pkgs \<and> subseq fs pkgs
        \<and> length bs + length fs = length (eligible_at_turn e c pkgs st)
        \<and> (\<forall>p. count_list bs p + count_list fs p = count_list (eligible_at_turn e c pkgs st) p)"
proof (induction pkgs arbitrary: st)
  case Nil
  then show ?case by simp
next
  case (Cons p ps)
  then obtain st1 where s1: "build_package e c p st = Inr st1" and r: "build_packages e c ps st1 = Inr st'"
    by (auto split: sum.splits)
  from Cons.IH[OF r] obtain bs fs where
    ih: "built_packages st' = built_packages st1 @ bs" "failed_packages st' = failed_packages st1 @ fs"
        "subseq bs ps" "subseq fs ps"
        "length bs + length fs = length (eligible_at_turn e c ps st1)"
        "\<forall>q. count_list bs q + count_list fs q = count_list (eligible_at_turn e c ps st1) q"
    by blast
  from build_package_Inr[OF s1] consider
      (skip) "eligible e (files st) p = Inr False" "built_packages st1 = built_packages st" "failed_packages st1 = failed_packages st"
    | (ok) "eligible e (files st) p = Inr True" "built_packages st1 = built_packages st @ [p]" "failed_packages st1 = failed_packages st"
    | (bad) "eligible e (files st) p = Inr True" "built_packages st1 = built_packages st" "failed_packages st1 = failed_packages st @ [p]"
    by blast
  then show ?case
  proof cases
    case skip
    with ih s1 show ?thesis
      by - (rule exI[of _ bs], rule exI[of _ fs], auto simp: subseq_Cons2_iff)
  next
    case ok
    with ih s1 show ?thesis
      by - (rule exI[of _ "p # bs"], rule exI[of _ fs], auto simp: subseq_Cons2_iff)
  next
    case bad
    with ih s1 show ?thesis
      by - (rule exI[of _ bs], rule exI[of _ "p # fs"], auto simp: subseq_Cons2_iff)
  qed
qed

lemma skip_all:
  "\<forall>p\<in>set pkgs. eligible e (files st) p = Inr False \<Longrightarrow>
     build_packages e c pkgs st = Inr (st\<lparr>out := out st @ map Skipping pkgs\<rparr>)"
  by (induction pkgs arbitrary: st) (simp_all add: build_package_skip)

lemma announced_items [simp]:
  "announced (map SuccessItem xs) = []" "announced (map FailedItem xs) = []"
  "announced (map (\<lambda>w. WheelItem (f w) (g w)) ws) = []"
  by (induction xs, simp_all, induction ws, simp_all)




lemma count_list_distinct:
  "distinct xs \<Longrightarrow> count_list xs p = (if p \<in> set xs then 1 else 0)"
  by (induction xs) auto

lemma distinct_subseq: "subseq xs ys \<Longrightarrow> distinct ys \<Longrightarrow> distinct xs"
proof (induction rule: list_emb.induct)
  case (list_emb_Cons2 x y xs ys)
  then show ?case using list_emb_set[of "(=)" xs ys x] by auto
qed auto

lemma distinct_packages: "distinct packages"
  by (simp add: packages_def)

lemma filter_weaken:
  assumes "filter P xs = filter P ys" and "\<And>x. Q x \<Longrightarrow> P x"
  shows "filter Q xs = filter Q ys"
proof -
  have "filter Q zs = filter Q (filter P zs)" for zs
    using assms(2) by (auto intro: filter_cong)
  from this[of xs] this[of ys] assms(1) show ?thesis by simp
qed

lemma rmtree_frame:
  "filter (\<lambda>(q, n). \<not> prefix p q) (left_behind (rmtree e fs p)) = filter (\<lambda>(q, n). \<not> prefix p q) fs"
  by (auto simp: rmtree_def left_behind_def split: option.splits node.splits intro!: filter_cong)


lemma clean_frame:
  "filter (\<lambda>(q, n). \<not> (\<exists>d\<in>set ds. prefix (pd @ [d]) q)) (left_behind (clean_previous_builds e pd ds fs))
     = filter (\<lambda>(q, n). \<not> (\<exists>d\<in>set ds. prefix (pd @ [d]) q)) fs"
proof (induction ds arbitrary: fs)
  case Nil
  show ?case by (simp add: left_behind_def)
next
  case (Cons d ds)
  let ?all = "\<lambda>(q, n). \<not> (\<exists>d'\<in>set (d # ds). prefix (pd @ [d']) q)"
  let ?rest = "\<lambda>(q::path, n::node). \<not> (\<exists>d'\<in>set ds. prefix (pd @ [d']) q)"
  let ?one = "\<lambda>(q::path, n::node). \<not> prefix (pd @ [d]) q"
  have w1: "filter ?all xs = filter ?all ys" if "filter ?rest xs = filter ?rest ys" for xs ys
    using that by (rule filter_weaken) auto
  have w2: "filter ?all xs = filter ?all ys" if "filter ?one xs = filter ?one ys" for xs ys
    using that by (rule filter_weaken) auto
  consider (raise) err where "exists_path e fs (pd @ [d]) = Inl err"
    | (absent) "exists_path e fs (pd @ [d]) = Inr False"
    | (found) "exists_path e fs (pd @ [d]) = Inr True"
    by (cases "exists_path e fs (pd @ [d])") auto
  then show ?case
  proof cases
    case raise
    then show ?thesis by (simp add: left_behind_def)
  next
    case absent
    then show ?thesis using w1[OF Cons.IH[of fs]] by simp
  next
    case found
    show ?thesis
    proof (cases "rmtree e fs (pd @ [d])")
      case (Inl x)
      with found have "left_behind (clean_previous_builds e pd (d # ds) fs) = left_behind (rmtree e fs (pd @ [d]))"
        by (simp add: left_behind_def)
      then show ?thesis using w2[OF rmtree_frame[of "pd @ [d]" e fs]] by simp
    next
      case (Inr fs1)
      with found have "left_behind (clean_previous_builds e pd (d # ds) fs) = left_behind (clean_previous_builds e pd ds fs1)"
        by simp
      moreover have "filter ?all fs1 = filter ?all fs"
        using w2[OF rmtree_frame[of "pd @ [d]" e fs]] Inr by (simp add: left_behind_def)
      ultimately show ?thesis using w1[OF Cons.IH[of fs1]] by simp
    qed
  qed
qed







lemma map_of_filter_key:
  "map_of (filter (\<lambda>(q, n). P q) fs) k = (if P k then map_of fs k else None)"
  by (induction fs) auto

lemma frame_lookup:
  assumes "filter (\<lambda>(q, n). P q) fs' = filter (\<lambda>(q, n). P q) fs" and "P k"
  shows "map_of fs' k = map_of fs k \<and> ((k, n) \<in> set fs' \<longleftrightarrow> (k, n) \<in> set fs)"
proof -
  have a: "map_of zs k = map_of (filter (\<lambda>(q, n). P q) zs) k" for zs
    using assms(2) by (simp add: map_of_filter_key)
  have b: "(k, n) \<in> set zs \<longleftrightarrow> (k, n) \<in> set (filter (\<lambda>(q, n). P q) zs)" for zs
    using assms(2) by simp
  have "map_of fs' k = map_of fs k"
    by (subst a[of fs'], subst a[of fs], simp only: assms(1))
  moreover have "(k, n) \<in> set fs' \<longleftrightarrow> (k, n) \<in> set fs"
    by (subst b[of fs'], subst b[of fs], simp only: assms(1))
  ultimately show ?thesis by (rule conjI)
qed


lemma dist_outside:
  "prefix (dist_dir e) q \<Longrightarrow> \<not> prefix (python_dir e @ [p, d]) q"
  by (auto simp: prefix_def dist_dir_def python_dir_def)

lemma loop_out_Inr:
  "build_packages e c pkgs st = Inr st' \<Longrightarrow> \<exists>mid. out st' = out st @ mid"
proof (induction pkgs arbitrary: st)
  case Nil
  then show ?case by simp
next
  case (Cons p ps)
  then obtain st1 where s1: "build_package e c p st = Inr st1" and r: "build_packages e c ps st1 = Inr st'"
    by (auto split: sum.splits)
  from build_package_Inr[OF s1] obtain m1 where "out st1 = out st @ m1" by auto
  moreover from Cons.IH[OF r] obtain m2 where "out st' = out st1 @ m2" by blast
  ultimately show ?case by simp
qed

lemma loop_notices:
  "build_packages e c pkgs st = Inr st' \<Longrightarrow> q \<in> set pkgs \<Longrightarrow>
     (q \<in> set (eligible_at_turn e c pkgs st) \<longrightarrow> Building q \<in> set (out st'))
   \<and> (q \<notin> set (eligible_at_turn e c pkgs st) \<longrightarrow> Skipping q \<in> set (out st'))"
proof (induction pkgs arbitrary: st)
  case Nil
  then show ?case by simp
next
  case (Cons p ps)
  then obtain st1 where s1: "build_package e c p st = Inr st1" and r: "build_packages e c ps st1 = Inr st'"
    by (auto split: sum.splits)
  from loop_out_Inr[OF r] obtain mid where o: "out st' = out st1 @ mid" by blast
  have el: "eligible_at_turn e c (p # ps) st
      = (if eligible e (files st) p = Inr True then [p] else []) @ eligible_at_turn e c ps st1"
    using s1 by simp
  have here: "(eligible e (files st) p = Inr True \<longrightarrow> Building p \<in> set (out st'))
            \<and> (eligible e (files st) p \<noteq> Inr True \<longrightarrow> Skipping p \<in> set (out st'))"
    using build_package_Inr[OF s1] o by auto
  show ?case
  proof (cases "q \<in> set ps")
    case True
    from Cons.IH[OF r True] here show ?thesis unfolding el by auto
  next
    case False
    with Cons.prems(2) have "q = p" by simp
    moreover from False have "q \<notin> set (eligible_at_turn e c ps st1)"
      using eligible_at_turn_subseq[of e c ps st1]
            list_emb_set[of "(=)" "eligible_at_turn e c ps st1" ps q]
      by auto
    ultimately show ?thesis using here unfolding el by auto
  qed
qed

lemma clean_append:
  "clean_previous_builds e pd (ds1 @ ds2) fs =
     (case clean_previous_builds e pd ds1 fs of
        Inl x \<Rightarrow> Inl x
      | Inr fs1 \<Rightarrow> clean_previous_builds e pd ds2 fs1)"
  by (induction ds1 arbitrary: fs) (auto simp: Let_def split: sum.splits)

lemma main_abort_at:
  assumes "python_cmd e fs = Inr c" and "start e fs = Inr st0" and "packages = xs @ p # ys"
    and "build_packages e c xs st0 = Inr st1"
    and "build_package e c p st1 = Inl x"
  shows "main e fs = Inl x"
proof -
  have "build_packages e c (xs @ p # ys) st0 = Inl x"
    using assms(4,5) by (simp add: build_packages_append)
  with assms(1,2,3) show ?thesis by (simp add: main_def)
qed

lemma last_le_iff:
  fixes a b :: "'a::linorder"
  shows "d @ [a] \<le> d @ [b] \<longleftrightarrow> a \<le> b"
  by (induction d) auto

lemma map_last_insort:
  fixes d :: "'a::linorder list"
  assumes "\<forall>r\<in>set ps. \<exists>n. r = d @ [n]"
  shows "map last (insort (d @ [a]) ps) = insort a (map last ps)"
  using assms
proof (induction ps)
  case Nil
  then show ?case by simp
next
  case (Cons r rs)
  then obtain n where r: "r = d @ [n]" by auto
  from Cons show ?case by (simp add: r last_le_iff)
qed

lemma map_last_sort:
  fixes d :: "'a::linorder list"
  assumes "\<forall>r\<in>set ps. \<exists>n. r = d @ [n]"
  shows "map last (sort ps) = sort (map last ps)"
  using assms
proof (induction ps)
  case Nil
  then show ?case by simp
next
  case (Cons r rs)
  then obtain n where r: "r = d @ [n]" by auto
  from Cons.prems have "\<forall>r\<in>set (sort rs). \<exists>n. r = d @ [n]" by simp
  from map_last_insort[OF this, of n] Cons show ?case
    by (simp add: r sort_key_simps)
qed

lemma glob_whl_shape: "\<forall>r\<in>set (glob_whl e fs d). \<exists>n. r = d @ [n]"
proof
  fix r assume "r \<in> set (glob_whl e fs d)"
  then have "r \<noteq> []" "butlast r = d" by (auto simp: glob_whl_def split: if_splits)
  then have "r = d @ [last r]" using append_butlast_last_id[of r] by simp
  then show "\<exists>n. r = d @ [n]" ..
qed

lemma listed_wheels_append: "listed_wheels (xs @ ys) = listed_wheels xs @ listed_wheels ys"
  by (induction xs rule: listed_wheels.induct) auto

lemma list_wheels_Inr: "list_wheels e fs ws = Inr es \<Longrightarrow> listed_wheels es = map last ws"
  by (induction ws arbitrary: es) (auto split: sum.splits prod.splits)

lemma list_wheels_returns:
  "\<forall>w\<in>set ws. w \<noteq> [] \<and> \<not> denied e fs w \<and> map_of fs w \<noteq> None \<Longrightarrow>
     \<exists>es. list_wheels e fs ws = Inr es"
  by (induction ws) (auto simp: stat_def split: sum.splits prod.splits)

lemma glob_whl_entries: "w \<in> set (glob_whl e fs d) \<Longrightarrow> w \<noteq> [] \<and> map_of fs w \<noteq> None"
  by (auto simp: glob_whl_def map_of_eq_None_iff split: if_splits)

lemma listed_wheels_listing:
  assumes "wheel_listing e fs = Inr l"
  shows "listed_wheels l =
     (if exists_path e fs (dist_dir e) = Inr True then sort (map last (glob_whl e fs (dist_dir e)))
      else [])"
proof -
  have "map last (sort (glob_whl e fs (dist_dir e))) = sort (map last (glob_whl e fs (dist_dir e)))"
    using glob_whl_shape by (rule map_last_sort)
  with assms list_wheels_Inr[of e fs "sort (glob_whl e fs (dist_dir e))"] show ?thesis
    by (auto simp: wheel_listing_def Let_def listed_wheels_append
             split: sum.splits prod.splits if_splits)
qed

lemma glob_whl_names:
  assumes "\<not> unreadable e fs d"
  shows "set (map last (glob_whl e fs d)) = {n. suffix ''.whl'' n \<and> d @ [n] \<in> fst ` set fs}"
proof (intro set_eqI iffI)
  fix n assume "n \<in> set (map last (glob_whl e fs d))"
  then obtain r where r: "r \<in> set (glob_whl e fs d)" "n = last r" by auto
  then have "r \<noteq> []" "butlast r = d" "suffix ''.whl'' (last r)" "r \<in> fst ` set fs"
    by (auto simp: glob_whl_def split: if_splits)
  moreover from this have "r = d @ [last r]" using append_butlast_last_id[of r] by simp
  ultimately show "n \<in> {n. suffix ''.whl'' n \<and> d @ [n] \<in> fst ` set fs}"
    using r(2) by auto
next
  fix n assume "n \<in> {n. suffix ''.whl'' n \<and> d @ [n] \<in> fst ` set fs}"
  with assms have "d @ [n] \<in> set (glob_whl e fs d)" by (auto simp: glob_whl_def)
  then have "last (d @ [n]) \<in> last ` set (glob_whl e fs d)" by (rule imageI)
  then show "n \<in> set (map last (glob_whl e fs d))" by simp
qed

lemma wheel_listing_returns:
  assumes "exists_path e fs (dist_dir e) = Inr found"
    and "\<forall>w\<in>set (glob_whl e fs (dist_dir e)). \<not> denied e fs w"
  shows "\<exists>l. wheel_listing e fs = Inr l"
proof -
  from assms(2) glob_whl_entries[of _ e fs "dist_dir e"]
  have "\<forall>w\<in>set (sort (glob_whl e fs (dist_dir e))). w \<noteq> [] \<and> \<not> denied e fs w \<and> map_of fs w \<noteq> None"
    by auto
  from list_wheels_returns[OF this] assms(1) show ?thesis
    by (auto simp: wheel_listing_def Let_def)
qed

lemma summary_returns:
  "wheel_listing e (files st) = Inr l \<Longrightarrow> \<exists>st'. summary e st = Inr st'"
  by (simp add: summary_def emit_def Let_def)


section \<open>The runs on the concrete workspaces\<close>

lemma demo_paths:
  "python_dir (demo_env_with sp rf dn) = [''w'', ''clients'', ''python'']"
  "dist_dir (demo_env_with sp rf dn) = [''w'', ''dist'', ''python'']"
  "venv_python (demo_env_with sp rf dn) = [''w'', ''clients'', ''python'', ''.venv'', ''bin'', ''python'']"
  by (simp_all add: dist_dir_def python_dir_def workspace_root_def script_dir_def venv_python_def
        demo_env_with_def)

lemma demo_fields:
  "spawn (demo_env_with sp rf dn) = sp" "rm_fault (demo_env_with sp rf dn) = rf"
  "denied (demo_env_with sp rf dn) = dn" "decode (demo_env_with sp rf dn) = ascii_decode"
  "unreadable (demo_env_with sp rf dn) = (\<lambda>fs p. False)"
  "mkdir_fault (demo_env_with sp rf dn) = (\<lambda>p. None)" "dir_size (demo_env_with sp rf dn) = 4096"
  "sys_executable (demo_env_with sp rf dn) = ''/usr/bin/python3''"
  by (simp_all add: demo_env_with_def)

lemma demo_exists:
  "\<not> dn f p \<Longrightarrow> exists_path (demo_env_with sp rf dn) f p = Inr (present f p)"
  by (simp add: exists_path_eq demo_fields)

lemma demo_python_cmd:
  assumes "\<not> dn demo_fs [''w'', ''clients'', ''python'', ''.venv'', ''bin'', ''python'']"
  shows "python_cmd (demo_env_with sp rf dn) demo_fs = Inr ''/usr/bin/python3''"
  using assms
  by (simp add: python_cmd_def demo_paths demo_fields demo_exists present_def demo_fs_def)

lemma demo_start:
  assumes "\<not> dn demo_fs [''w'', ''dist'', ''python'']"
  shows "start (demo_env_with sp rf dn) demo_fs = Inr demo_st0"
proof -
  have "mkdir_parents (demo_env_with sp rf dn) demo_fs [''w'', ''dist'', ''python''] = Inr demo_fs"
    using assms by (simp add: mkdir_parents_def demo_fields upt_rec) (simp add: demo_fs_def)
  then show ?thesis
    by (simp add: start_def demo_paths demo_st0_def emit_def)
qed

lemma demo_files:
  "files demo_st0 = demo_fs" "files demo_st1 = demo_fs1" "files demo_st2 = demo_fs1"
  "files demo_st3 = demo_fs1" "files demo_final = demo_fs1" "files denied_abort = demo_fs_clean"
  by (simp_all add: demo_st0_def demo_st1_def demo_st2_def demo_st3_def demo_final_def
        denied_abort_def)

lemma demo_core_eligible:
  assumes "\<not> dn demo_fs [''w'', ''clients'', ''python'', ''core'']"
    and "\<not> dn demo_fs [''w'', ''clients'', ''python'', ''core'', ''pyproject.toml'']"
  shows "eligible (demo_env_with sp rf dn) demo_fs ''core'' = Inr True"
  using assms
  by (simp add: eligible_def demo_paths demo_exists present_def demo_fs_def)

lemma demo_rmtree_core_build:
  "rmtree (demo_env_with sp (\<lambda>p. None) dn) demo_fs [''w'', ''clients'', ''python'', ''core'', ''build'']
     = Inr demo_fs_clean"
  by (simp add: rmtree_def demo_fields demo_fs_def demo_fs_clean_def)

lemma demo_core_stale:
  "present demo_fs [''w'', ''clients'', ''python'', ''core'', ''build'']"
  "\<not> present demo_fs_clean [''w'', ''clients'', ''python'', ''core'', ''build'']"
  "\<not> present demo_fs_clean [''w'', ''clients'', ''python'', ''core'', ''dist'']"
  "\<not> present demo_fs_clean [''w'', ''clients'', ''python'', ''core'', ''core.egg-info'']"
  "\<not> present demo_fs_clean [''w'', ''clients'', ''python'', ''core'', ''geniustechspace_core.egg-info'']"
  by (simp_all add: present_def demo_fs_def demo_fs_clean_def)

lemma demo_clean_core:
  assumes "\<And>f d. \<not> dn f [''w'', ''clients'', ''python'', ''core'', d]"
  shows "clean_previous_builds (demo_env_with sp (\<lambda>p. None) dn) [''w'', ''clients'', ''python'', ''core'']
     (cleanup_dirs ''core'') demo_fs = Inr demo_fs_clean"
  by (simp add: cleanup_dirs_def demo_exists assms demo_core_stale demo_rmtree_core_build)

lemma demo_env_paths:
  "python_dir demo_env = [''w'', ''clients'', ''python'']"
  "dist_dir demo_env = [''w'', ''dist'', ''python'']"
  unfolding demo_env_def by (rule demo_paths)+

lemma demo_env_exists: "exists_path demo_env f p = Inr (present f p)"
  unfolding demo_env_def by (rule demo_exists) simp

lemma demo_env_start: "start demo_env demo_fs = Inr demo_st0"
  unfolding demo_env_def by (rule demo_start) simp

lemma demo_env_python_cmd: "python_cmd demo_env demo_fs = Inr ''/usr/bin/python3''"
  unfolding demo_env_def by (rule demo_python_cmd) simp

lemma demo_env_eligible:
  "eligible demo_env demo_fs ''core'' = Inr True"
  "eligible demo_env demo_fs1 ''idp'' = Inr False"
  "eligible demo_env demo_fs1 ''notification'' = Inr True"
  by (simp_all add: eligible_def demo_env_paths demo_env_exists present_def demo_fs_def demo_fs1_def
        demo_fs_clean_def)

lemma demo_env_clean_core:
  "clean_previous_builds demo_env [''w'', ''clients'', ''python'', ''core''] (cleanup_dirs ''core'')
     demo_fs = Inr demo_fs_clean"
  unfolding demo_env_def by (rule demo_clean_core) simp

lemma demo_env_clean_notification:
  "clean_previous_builds demo_env [''w'', ''clients'', ''python'', ''notification'']
     (cleanup_dirs ''notification'') demo_fs1 = Inr demo_fs1"
proof -
  have "\<not> present demo_fs1 [''w'', ''clients'', ''python'', ''notification'', ''build'']"
    "\<not> present demo_fs1 [''w'', ''clients'', ''python'', ''notification'', ''dist'']"
    "\<not> present demo_fs1
        [''w'', ''clients'', ''python'', ''notification'', ''notification.egg-info'']"
    "\<not> present demo_fs1
        [''w'', ''clients'', ''python'', ''notification'', ''geniustechspace_notification.egg-info'']"
    by (simp_all add: present_def demo_fs1_def demo_fs_clean_def)
  then show ?thesis
    by (simp add: cleanup_dirs_def demo_env_exists)
qed

lemma demo_spawn_core:
  "spawn demo_env cmd [''w'', ''clients'', ''python'', ''core''] demo_fs_clean
     = Exited 0 ''ok'' [] demo_fs1"
  by (simp add: demo_env_def demo_fields demo_spawn_def demo_fs1_def)

lemma demo_spawn_notification:
  "spawn demo_env cmd [''w'', ''clients'', ''python'', ''notification''] demo_fs1
     = Exited 1 [] ''missing dependency X'' demo_fs1"
  by (simp add: demo_env_def demo_fields demo_spawn_def)

lemma demo_decode:
  "decode (demo_env_with sp rf dn) [] = Some []"
  "decode (demo_env_with sp rf dn) ''ok'' = Some ''ok''"
  "decode (demo_env_with sp rf dn) ''missing dependency X'' = Some ''missing dependency X''"
  "decode (demo_env_with sp rf dn) ''boom'' = Some ''boom''"
  "decode (demo_env_with sp rf dn) [CHR 0xFF] = None"
  by (simp_all add: demo_fields ascii_decode_def)

lemma demo_env_decode:
  "decode demo_env [] = Some []"
  "decode demo_env ''ok'' = Some ''ok''"
  "decode demo_env ''missing dependency X'' = Some ''missing dependency X''"
  unfolding demo_env_def by (rule demo_decode)+

lemma demo_run_core:
  "run_command demo_env cmd [''w'', ''clients'', ''python'', ''core''] demo_fs_clean
     = Inr ((True, ''ok''), demo_fs1)"
  by (simp add: run_command_def subprocess_run_def demo_spawn_core demo_env_decode)

lemma demo_run_notification:
  "run_command demo_env cmd [''w'', ''clients'', ''python'', ''notification''] demo_fs1
     = Inr ((False, ''missing dependency X''), demo_fs1)"
  by (simp add: run_command_def subprocess_run_def demo_spawn_notification demo_env_decode)

lemma demo_core: "build_package demo_env ''/usr/bin/python3'' ''core'' demo_st0 = Inr demo_st1"
  by (simp add: build_package_def demo_env_paths demo_files demo_env_eligible emit_def
        demo_env_clean_core demo_run_core demo_st0_def demo_st1_def)

lemma demo_idp: "build_package demo_env ''/usr/bin/python3'' ''idp'' demo_st1 = Inr demo_st2"
  by (simp add: build_package_def demo_files demo_env_eligible demo_st2_def emit_def)

lemma demo_notification:
  "build_package demo_env ''/usr/bin/python3'' ''notification'' demo_st2 = Inr demo_st3"
  by (simp add: build_package_def demo_env_paths demo_files demo_env_eligible emit_def
        demo_env_clean_notification demo_run_notification demo_st1_def demo_st2_def demo_st3_def)

lemma demo_loop:
  "build_packages demo_env ''/usr/bin/python3'' packages demo_st0 = Inr demo_st3"
  by (simp add: packages_def demo_core demo_idp demo_notification)

lemma demo_env_fields:
  "denied demo_env = (\<lambda>fs p. False)" "unreadable demo_env = (\<lambda>fs p. False)"
  unfolding demo_env_def by (simp_all add: demo_fields)

lemma demo_glob:
  "glob_whl demo_env demo_fs1 [''w'', ''dist'', ''python'']
     = [[''w'', ''dist'', ''python'', ''old-0.0.9-py3-none-any.whl''],
        [''w'', ''dist'', ''python'', ''core-0.1.0-py3-none-any.whl'']]"
  by (simp add: glob_whl_def demo_env_fields demo_fs1_def demo_fs_clean_def suffix_to_prefix)

lemma demo_list_wheels:
  "list_wheels demo_env demo_fs1
     [[''w'', ''dist'', ''python'', ''core-0.1.0-py3-none-any.whl''],
      [''w'', ''dist'', ''python'', ''old-0.0.9-py3-none-any.whl'']]
     = Inr [WheelItem ''core-0.1.0-py3-none-any.whl'' 2048,
            WheelItem ''old-0.0.9-py3-none-any.whl'' 900]"
  by (simp add: stat_def demo_env_fields demo_fs1_def demo_fs_clean_def)

lemma demo_wheels: "wheel_listing demo_env demo_fs1 = Inr demo_listing"
proof -
  have "present demo_fs1 [''w'', ''dist'', ''python'']"
    by (simp add: present_def demo_fs1_def demo_fs_clean_def)
  moreover have "sort [[''w'', ''dist'', ''python'', ''old-0.0.9-py3-none-any.whl''],
        [''w'', ''dist'', ''python'', ''core-0.1.0-py3-none-any.whl'']]
     = [[''w'', ''dist'', ''python'', ''core-0.1.0-py3-none-any.whl''],
        [''w'', ''dist'', ''python'', ''old-0.0.9-py3-none-any.whl'']]"
    by simp
  ultimately show ?thesis
    by (simp add: wheel_listing_def demo_env_exists demo_env_paths demo_glob demo_list_wheels
          demo_listing_def del: sort_key_simps list_wheels.simps)
qed

lemma demo_summary: "summary demo_env demo_st3 = Inr demo_final"
  by (simp add: summary_def Let_def emit_def demo_final_def demo_st3_def demo_wheels)

lemma demo_main: "main demo_env demo_fs = Inr (1, demo_final)"
proof -
  have "failed_packages demo_final \<noteq> []"
    by (simp add: demo_final_def demo_st3_def)
  then show ?thesis
    by (simp add: main_def demo_env_python_cmd demo_env_start demo_loop demo_summary)
qed

lemma demo_eligible_subprojects: "eligible_subprojects demo_env demo_fs = [''core'', ''notification'']"
  by (simp add: eligible_subprojects_def demo_env_python_cmd demo_env_start packages_def
        demo_core demo_idp demo_notification demo_files demo_env_eligible)




lemma garbled_facts:
  "python_cmd garbled_env demo_fs = Inr ''/usr/bin/python3''"
  "start garbled_env demo_fs = Inr demo_st0"
  "python_dir garbled_env = [''w'', ''clients'', ''python'']"
  "eligible garbled_env demo_fs ''core'' = Inr True"
  "clean_previous_builds garbled_env [''w'', ''clients'', ''python'', ''core'']
     (cleanup_dirs ''core'') demo_fs = Inr demo_fs_clean"
  "spawn garbled_env cmd cwd f = Exited 1 [] [CHR 0xFF] f"
  "decode garbled_env [] = Some []"
  "decode garbled_env [CHR 0xFF] = None"
  unfolding garbled_env_def
  by (simp_all add: demo_python_cmd demo_start demo_paths demo_core_eligible demo_clean_core
        demo_fields ascii_decode_def)

lemma garbled_run:
  "run_command garbled_env cmd cwd f = Inl (UnicodeDecodeError, f)"
  by (simp add: run_command_def subprocess_run_def garbled_facts)

lemma garbled_core:
  "build_package garbled_env ''/usr/bin/python3'' ''core'' demo_st0
     = Inl (UnicodeDecodeError, abort_at_core)"
  by (simp add: build_package_def garbled_facts demo_files abort_at_core_def emit_def garbled_run)

lemma garbled_main:
  "main garbled_env demo_fs = Inl (UnicodeDecodeError, abort_at_core)"
  by (simp add: main_def garbled_facts packages_def garbled_core)

lemma locked_facts:
  "python_cmd locked_env demo_fs = Inr ''/usr/bin/python3''"
  "start locked_env demo_fs = Inr demo_st0"
  "python_dir locked_env = [''w'', ''clients'', ''python'']"
  "eligible locked_env demo_fs ''core'' = Inr True"
  "exists_path locked_env f p = Inr (present f p)"
  unfolding locked_env_def
  by (simp_all add: demo_python_cmd demo_start demo_paths demo_core_eligible demo_exists)

lemma locked_rmtree:
  "rmtree locked_env demo_fs [''w'', ''clients'', ''python'', ''core'', ''build'']
     = Inl (PermissionError, locked_fs)"
  by (simp add: rmtree_def locked_env_def demo_fields demo_fs_def locked_fs_def)

lemma locked_clean_core:
  "clean_previous_builds locked_env [''w'', ''clients'', ''python'', ''core''] (cleanup_dirs ''core'')
     demo_fs = Inl (PermissionError, locked_fs)"
  by (simp add: cleanup_dirs_def locked_facts demo_core_stale locked_rmtree)

lemma locked_core:
  "build_package locked_env ''/usr/bin/python3'' ''core'' demo_st0
     = Inl (OSError PermissionError, locked_abort)"
  by (simp add: build_package_def locked_facts locked_clean_core demo_files locked_abort_def emit_def)

lemma locked_main: "main locked_env demo_fs = Inl (OSError PermissionError, locked_abort)"
  by (simp add: main_def locked_facts packages_def locked_core)

lemma locked_eligible_subprojects: "eligible_subprojects locked_env demo_fs = [''core'']"
  by (simp add: eligible_subprojects_def locked_facts packages_def locked_core demo_files)

lemma denied_facts:
  "python_cmd denied_env demo_fs = Inr ''/usr/bin/python3''"
  "start denied_env demo_fs = Inr demo_st0"
  "python_dir denied_env = [''w'', ''clients'', ''python'']"
  "eligible denied_env demo_fs ''core'' = Inr True"
  "clean_previous_builds denied_env [''w'', ''clients'', ''python'', ''core'']
     (cleanup_dirs ''core'') demo_fs = Inr demo_fs_clean"
  "spawn denied_env cmd cwd f = Exited 1 [] ''boom'' f"
  "decode denied_env [] = Some []"
  "decode denied_env ''boom'' = Some ''boom''"
  unfolding denied_env_def
  by (simp_all add: demo_python_cmd demo_start demo_paths demo_core_eligible demo_clean_core
        demo_fields ascii_decode_def)

lemma denied_idp_eligible:
  "exists_path denied_env demo_fs_clean [''w'', ''clients'', ''python'', ''idp''] = Inr True"
  "exists_path denied_env demo_fs_clean [''w'', ''clients'', ''python'', ''idp'', ''pyproject.toml'']
     = Inl PermissionError"
  "eligible denied_env demo_fs_clean ''idp'' = Inl PermissionError"
  by (simp_all add: eligible_def exists_path_eq denied_env_def demo_paths demo_fields present_def
        demo_fs_clean_def)

lemma denied_run:
  "run_command denied_env cmd cwd f = Inr ((False, ''boom''), f)"
  by (simp add: run_command_def subprocess_run_def denied_facts)

lemma denied_core:
  "build_package denied_env ''/usr/bin/python3'' ''core'' demo_st0 = Inr denied_abort"
  by (simp add: build_package_def denied_facts demo_files denied_abort_def emit_def denied_run
        demo_st0_def)

lemma denied_idp:
  "build_package denied_env ''/usr/bin/python3'' ''idp'' denied_abort
     = Inl (OSError PermissionError, denied_abort)"
  by (simp add: build_package_def demo_files denied_idp_eligible)

lemma denied_main: "main denied_env demo_fs = Inl (OSError PermissionError, denied_abort)"
  by (simp add: main_def denied_facts packages_def denied_core denied_idp)

lemma bare_start: "start demo_env bare_fs = Inr bare_st0"
  by (simp add: start_def mkdir_parents_def demo_env_def demo_paths demo_fields upt_rec bare_fs_def
        bare_st0_def emit_def)

lemma bare_python_cmd: "python_cmd demo_env bare_fs = Inr ''/usr/bin/python3''"
  by (simp add: python_cmd_def demo_exists demo_env_def demo_paths demo_fields present_def
        bare_fs_def)

lemma bare_ineligible:
  "eligible demo_env (files bare_st0) ''core'' = Inr False"
  "eligible demo_env (files bare_st0) ''idp'' = Inr False"
  "eligible demo_env (files bare_st0) ''notification'' = Inr False"
  by (simp_all add: eligible_def demo_env_paths demo_env_exists present_def bare_st0_def bare_fs_def)

lemma bare_loop:
  "build_packages demo_env ''/usr/bin/python3'' packages bare_st0
     = Inr (bare_st0\<lparr>out := out bare_st0 @ map Skipping packages\<rparr>)"
  using bare_ineligible by (intro skip_all) (simp add: packages_def)

lemma bare_dist:
  "exists_path demo_env (files bare_st0) (dist_dir demo_env) = Inr True"
  "glob_whl demo_env (files bare_st0) (dist_dir demo_env) = []"
  "wheel_listing demo_env (files bare_st0) = Inr []"
proof -
  show a: "exists_path demo_env (files bare_st0) (dist_dir demo_env) = Inr True"
    by (simp add: demo_env_exists demo_env_paths present_def bare_st0_def bare_fs_def)
  show b: "glob_whl demo_env (files bare_st0) (dist_dir demo_env) = []"
    by (simp add: demo_env_paths glob_whl_def bare_st0_def bare_fs_def)
  from a b show "wheel_listing demo_env (files bare_st0) = Inr []"
    by (simp add: wheel_listing_def)
qed

lemma bare_main: "main demo_env bare_fs = Inr (0, bare_final)"
proof -
  have "summary demo_env (bare_st0\<lparr>out := out bare_st0 @ map Skipping packages\<rparr>) = Inr bare_final"
    using bare_dist(3)
    by (simp add: summary_def Let_def emit_def bare_final_def packages_def)
       (simp add: bare_st0_def)
  moreover have "failed_packages bare_final = []"
    by (simp add: bare_final_def bare_st0_def)
  ultimately show ?thesis
    by (simp add: main_def bare_python_cmd bare_start bare_loop)
qed

lemma bare_eligible_subprojects: "eligible_subprojects demo_env bare_fs = []"
proof -
  have "eligible_at_turn e c pkgs st = []"
    if "\<forall>p\<in>set pkgs. eligible e (files st) p = Inr False" for e c pkgs st
    using that by (induction pkgs arbitrary: st) (simp_all add: build_package_skip)
  from this[of packages demo_env bare_st0 "''/usr/bin/python3''"] bare_ineligible show ?thesis
    by (simp add: eligible_subprojects_def bare_python_cmd bare_start packages_def)
qed

lemma unreadable_paths:
  "python_dir unreadable_env = [''w'', ''clients'', ''python'']"
  "dist_dir unreadable_env = [''w'', ''dist'', ''python'']"
  "venv_python unreadable_env = [''w'', ''clients'', ''python'', ''.venv'', ''bin'', ''python'']"
  "sys_executable unreadable_env = ''/usr/bin/python3''"
  "denied unreadable_env = (\<lambda>fs p. False)"
  "unreadable unreadable_env = (\<lambda>fs p. p = [''w'', ''dist'', ''python''])"
  by (simp_all add: unreadable_env_def demo_env_def demo_env_with_def dist_dir_def python_dir_def
        workspace_root_def script_dir_def venv_python_def)

lemma unreadable_exists: "exists_path unreadable_env f p = Inr (present f p)"
  by (simp add: exists_path_eq unreadable_paths)

lemma stale_start:
  "python_cmd unreadable_env stale_fs = Inr ''/usr/bin/python3''"
  "start unreadable_env stale_fs
     = Inr \<lparr>files = stale_fs, built_packages = [], failed_packages = [],
            out = [Section ''Building Python Packages for Distribution'',
                   OutputDirectory [''w'', ''dist'', ''python'']]\<rparr>"
proof -
  show "python_cmd unreadable_env stale_fs = Inr ''/usr/bin/python3''"
    by (simp add: python_cmd_def unreadable_exists unreadable_paths present_def stale_fs_def
          bare_fs_def)
  have "mkdir_parents unreadable_env stale_fs [''w'', ''dist'', ''python''] = Inr stale_fs"
    by (simp add: mkdir_parents_def unreadable_paths upt_rec) (simp add: stale_fs_def bare_fs_def)
  then show "start unreadable_env stale_fs
     = Inr \<lparr>files = stale_fs, built_packages = [], failed_packages = [],
            out = [Section ''Building Python Packages for Distribution'',
                   OutputDirectory [''w'', ''dist'', ''python'']]\<rparr>"
    by (simp add: start_def unreadable_paths emit_def)
qed

lemma stale_ineligible:
  "eligible unreadable_env stale_fs ''core'' = Inr False"
  "eligible unreadable_env stale_fs ''idp'' = Inr False"
  "eligible unreadable_env stale_fs ''notification'' = Inr False"
  by (simp_all add: eligible_def unreadable_paths unreadable_exists present_def stale_fs_def
        bare_fs_def)

lemma stale_listing:
  "exists_path unreadable_env stale_fs (dist_dir unreadable_env) = Inr True"
  "glob_whl unreadable_env stale_fs (dist_dir unreadable_env) = []"
  "wheel_listing unreadable_env stale_fs = Inr []"
proof -
  show a: "exists_path unreadable_env stale_fs (dist_dir unreadable_env) = Inr True"
    by (simp add: unreadable_exists unreadable_paths present_def stale_fs_def bare_fs_def)
  show b: "glob_whl unreadable_env stale_fs (dist_dir unreadable_env) = []"
    by (simp add: glob_whl_def unreadable_paths)
  from a b show "wheel_listing unreadable_env stale_fs = Inr []"
    by (simp add: wheel_listing_def)
qed

lemma stale_main: "main unreadable_env stale_fs = Inr (0, stale_final)"
proof -
  let ?s = "\<lparr>files = stale_fs, built_packages = [], failed_packages = [],
            out = [Section ''Building Python Packages for Distribution'',
                   OutputDirectory [''w'', ''dist'', ''python'']]\<rparr>"
  have l: "build_packages unreadable_env ''/usr/bin/python3'' packages ?s
     = Inr (?s\<lparr>out := out ?s @ map Skipping packages\<rparr>)"
    using stale_ineligible by (intro skip_all) (simp add: packages_def)
  have "summary unreadable_env (?s\<lparr>out := out ?s @ map Skipping packages\<rparr>) = Inr stale_final"
    using stale_listing(3)
    by (simp add: summary_def Let_def emit_def stale_final_def packages_def)
  moreover have "failed_packages stale_final = []"
    by (simp add: stale_final_def)
  ultimately show ?thesis
    by (simp add: main_def stale_start l)
qed


section \<open>The properties of the specification\<close>

subsection \<open>Exit status\<close>

text \<open>
  Claim C3, as the code has it. The process exits with 0 exactly when \<open>main\<close> returns
  with an empty list of failures. A run that returns exits with the value it returns,
  which is 0 if and only if \<open>failed_packages\<close> is empty and 1 otherwise; when no
  candidate was eligible at its turn, both lists are empty and the value is 0, and such
  a run does return when the output directory can be created, no existence test raises
  and the wheel listing can be printed. A run that an exception ends exits with 1,
  whatever its list of failures.
\<close>

theorem exit_zero_iff_no_failures:
  "(exit_status e fs = 0 \<longleftrightarrow> (\<exists>r s. main e fs = Inr (r, s) \<and> failed_packages s = []))
   \<and> (main e fs = Inr (rc, st) \<longrightarrow>
        exit_status e fs = rc \<and> (rc = 0 \<longleftrightarrow> failed_packages st = [])
        \<and> (failed_packages st \<noteq> [] \<longrightarrow> rc = 1))
   \<and> (main e fs = Inr (rc, st) \<and> eligible_subprojects e fs = [] \<longrightarrow>
        built_packages st = [] \<and> failed_packages st = [] \<and> rc = 0 \<and> exit_status e fs = 0)
   \<and> (python_cmd e fs = Inr c \<and> start e fs = Inr s_start
        \<and> (\<forall>p\<in>set packages. eligible e (files s_start) p = Inr False)
        \<and> wheel_listing e (files s_start) = Inr l \<longrightarrow>
        (\<exists>s. main e fs = Inr (0, s) \<and> built_packages s = [] \<and> failed_packages s = []
             \<and> exit_status e fs = 0))
   \<and> (main e fs = Inl (x, sx) \<longrightarrow> exit_status e fs = 1)"
proof (intro conjI impI)
  show "exit_status e fs = 0 \<longleftrightarrow> (\<exists>r s. main e fs = Inr (r, s) \<and> failed_packages s = [])"
    by (cases "main e fs") (auto simp: exit_status_def main_Inr split: if_splits)
next
  assume m: "main e fs = Inr (rc, st)"
  then show "exit_status e fs = rc" by (simp add: exit_status_def)
  from m show "rc = 0 \<longleftrightarrow> failed_packages st = []" "failed_packages st \<noteq> [] \<Longrightarrow> rc = 1"
    by (auto simp: main_Inr split: if_splits)
next
  assume a: "main e fs = Inr (rc, st) \<and> eligible_subprojects e fs = []"
  then obtain c' st0 st1 where c: "python_cmd e fs = Inr c'" and s: "start e fs = Inr st0"
    and l: "build_packages e c' packages st0 = Inr st1" and su: "summary e st1 = Inr st"
    and r: "rc = (if failed_packages st = [] then 0 else 1)"
    by (auto simp: main_Inr)
  from a have "eligible_at_turn e c' packages st0 = []"
    by (simp add: eligible_subprojects_def c s)
  with loop_lists[OF l] start_Inr[OF s] have "built_packages st1 = []" "failed_packages st1 = []"
    by auto
  with summary_cases[of e st1 st] su
  show b: "built_packages st = []" and f: "failed_packages st = []" by simp_all
  from f r show "rc = 0" by simp
  with a show "exit_status e fs = 0" by (simp add: exit_status_def)
next
  assume a: "python_cmd e fs = Inr c \<and> start e fs = Inr s_start
        \<and> (\<forall>p\<in>set packages. eligible e (files s_start) p = Inr False)
        \<and> wheel_listing e (files s_start) = Inr l"
  let ?st = "s_start\<lparr>out := out s_start @ map Skipping packages\<rparr>"
  from a have l: "build_packages e c packages s_start = Inr ?st"
    by (intro skip_all) simp
  from a summary_returns[of e ?st l] obtain s where su: "summary e ?st = Inr s"
    by auto
  from summary_cases[of e ?st s] su a start_Inr[of e fs s_start]
  have f: "built_packages s = []" "failed_packages s = []" by simp_all
  with a l su have m: "main e fs = Inr (0, s)"
    by (simp add: main_def)
  then have "exit_status e fs = 0" by (simp add: exit_status_def)
  with m f show "\<exists>s. main e fs = Inr (0, s) \<and> built_packages s = [] \<and> failed_packages s = []
               \<and> exit_status e fs = 0"
    by blast
next
  assume "main e fs = Inl (x, sx)"
  then show "exit_status e fs = 1" by (simp add: exit_status_def)
qed

theorem exit_zero_iff_no_failures_witness:
  "main demo_env demo_fs = Inr (1, demo_final)
   \<and> failed_packages demo_final = [''notification'']
   \<and> exit_status demo_env demo_fs = 1
   \<and> main demo_env bare_fs = Inr (0, bare_final)
   \<and> eligible_subprojects demo_env bare_fs = []
   \<and> built_packages bare_final = [] \<and> failed_packages bare_final = []
   \<and> exit_status demo_env bare_fs = 0
   \<and> python_cmd demo_env bare_fs = Inr ''/usr/bin/python3''
   \<and> start demo_env bare_fs = Inr bare_st0
   \<and> eligible demo_env (files bare_st0) ''core'' = Inr False
   \<and> eligible demo_env (files bare_st0) ''idp'' = Inr False
   \<and> eligible demo_env (files bare_st0) ''notification'' = Inr False
   \<and> wheel_listing demo_env (files bare_st0) = Inr []
   \<and> (\<exists>s. main demo_env bare_fs = Inr (0, s) \<and> built_packages s = [] \<and> failed_packages s = [])
   \<and> main locked_env demo_fs = Inl (OSError PermissionError, locked_abort)
   \<and> exit_status locked_env demo_fs = 1"
proof -
  have f: "failed_packages demo_final = [''notification'']"
    by (simp add: demo_final_def demo_st3_def)
  have i: "\<forall>p\<in>set packages. eligible demo_env (files bare_st0) p = Inr False"
    using bare_ineligible by (simp add: packages_def)
  from exit_zero_iff_no_failures[where e = demo_env and fs = demo_fs and rc = 1 and st = demo_final]
    demo_main
  have a: "exit_status demo_env demo_fs = 1" by simp
  from exit_zero_iff_no_failures[where e = demo_env and fs = bare_fs and rc = 0 and st = bare_final]
    bare_main bare_eligible_subprojects
  have b: "built_packages bare_final = [] \<and> failed_packages bare_final = []
      \<and> exit_status demo_env bare_fs = 0"
    by simp
  from exit_zero_iff_no_failures[where e = demo_env and fs = bare_fs
      and c = "''/usr/bin/python3''" and s_start = bare_st0 and l = "[]"]
    bare_python_cmd bare_start i bare_dist(3)
  have c: "\<exists>s. main demo_env bare_fs = Inr (0, s) \<and> built_packages s = [] \<and> failed_packages s = []"
    by blast
  from exit_zero_iff_no_failures[where e = locked_env and fs = demo_fs
      and x = "OSError PermissionError" and sx = locked_abort] locked_main
  have d: "exit_status locked_env demo_fs = 1" by simp
  from a b c d show ?thesis
    using demo_main f bare_main bare_eligible_subprojects bare_python_cmd bare_start
      bare_ineligible bare_dist(3) locked_main
    by simp
qed

text \<open>
  The claim as the specification states it fails: where the stale \<^verbatim>\<open>build\<close> directory
  of \<^verbatim>\<open>core\<close> may not be removed, the run ends with an empty list of failures and yet
  the process exits with 1.
\<close>

theorem exit_nonzero_without_failures:
  "main locked_env demo_fs = Inl (OSError PermissionError, locked_abort)
   \<and> failed_packages (final_state (main locked_env demo_fs)) = []
   \<and> exit_status locked_env demo_fs = 1"
  by (simp add: locked_main final_state_def locked_abort_def demo_st0_def exit_status_def)

text \<open>
  Claim C9. The exit status is 0 or 1 and nothing else. It is 1 whenever the run has
  recorded a failed package, whether \<open>main\<close> then returns, in which case it returns 1,
  or an exception ends the run later on, in which case the interpreter exits with 1.
\<close>

theorem exit_status_zero_or_one:
  "(exit_status e fs = 0 \<or> exit_status e fs = 1)
   \<and> (failed_packages (final_state (main e fs)) \<noteq> [] \<longrightarrow> exit_status e fs = 1)
   \<and> (main e fs = Inr (rc, st) \<longrightarrow>
        exit_status e fs = rc \<and> rc = (if failed_packages st = [] then 0 else 1))
   \<and> (main e fs = Inl (x, sx) \<longrightarrow> exit_status e fs = 1)"
proof (intro conjI impI)
  show "exit_status e fs = 0 \<or> exit_status e fs = 1"
    by (cases "main e fs") (auto simp: exit_status_def main_Inr split: if_splits)
  show "exit_status e fs = 1" if "failed_packages (final_state (main e fs)) \<noteq> []"
    using that
    by (cases "main e fs") (auto simp: exit_status_def final_state_def main_Inr split: if_splits)
  show "exit_status e fs = rc" if "main e fs = Inr (rc, st)"
    using that by (simp add: exit_status_def)
  show "rc = (if failed_packages st = [] then 0 else 1)" if "main e fs = Inr (rc, st)"
    using that by (auto simp: main_Inr)
  show "exit_status e fs = 1" if "main e fs = Inl (x, sx)"
    using that by (simp add: exit_status_def)
qed

theorem exit_status_zero_or_one_witness:
  "main demo_env demo_fs = Inr (1, demo_final)
   \<and> failed_packages (final_state (main demo_env demo_fs)) = [''notification'']
   \<and> exit_status demo_env demo_fs = 1
   \<and> main denied_env demo_fs = Inl (OSError PermissionError, denied_abort)
   \<and> failed_packages (final_state (main denied_env demo_fs)) = [''core'']
   \<and> exit_status denied_env demo_fs = 1"
proof -
  have f: "failed_packages (final_state (main demo_env demo_fs)) = [''notification'']"
    by (simp add: demo_main final_state_def demo_final_def demo_st3_def)
  have g: "failed_packages (final_state (main denied_env demo_fs)) = [''core'']"
    by (simp add: denied_main final_state_def denied_abort_def)
  from exit_status_zero_or_one[where e = demo_env and fs = demo_fs and rc = 1 and st = demo_final]
    demo_main f
  have a: "exit_status demo_env demo_fs = 1" by simp
  from exit_status_zero_or_one[where e = denied_env and fs = demo_fs
      and x = "OSError PermissionError" and sx = denied_abort] denied_main g
  have b: "exit_status denied_env demo_fs = 1" by simp
  from a b f g demo_main denied_main show ?thesis by simp
qed

subsection \<open>One outcome for each eligible package, in declaration order\<close>

text \<open>
  Claim C4, as the code has it. In a run that returns, the two result lists together are
  as long as the list of the candidates that were eligible at their turn; every such
  candidate occurs exactly once in exactly one of the two lists, and a name that is no
  eligible candidate occurs in neither.
\<close>

theorem one_outcome_per_eligible:
  assumes "main e fs = Inr (rc, st)"
  shows "length (built_packages st) + length (failed_packages st) = length (eligible_subprojects e fs)
       \<and> count_list (built_packages st) p + count_list (failed_packages st) p
           = (if p \<in> set (eligible_subprojects e fs) then 1 else 0)
       \<and> subseq (eligible_subprojects e fs) packages"
proof -
  from assms obtain c st0 st1 where c: "python_cmd e fs = Inr c" and s: "start e fs = Inr st0"
    and l: "build_packages e c packages st0 = Inr st1" and su: "summary e st1 = Inr st"
    by (auto simp: main_Inr)
  have el: "eligible_subprojects e fs = eligible_at_turn e c packages st0"
    by (simp add: eligible_subprojects_def c s)
  have sub: "subseq (eligible_subprojects e fs) packages"
    unfolding el by (rule eligible_at_turn_subseq)
  then have d: "distinct (eligible_subprojects e fs)"
    using distinct_packages by (rule distinct_subseq)
  from loop_lists[OF l] start_Inr[OF s] obtain bs fs' where
    "built_packages st1 = bs" "failed_packages st1 = fs'"
    "length bs + length fs' = length (eligible_subprojects e fs)"
    "\<forall>q. count_list bs q + count_list fs' q = count_list (eligible_subprojects e fs) q"
    unfolding el by auto
  with sub summary_cases[of e st1 st] su show ?thesis
    by (simp add: count_list_distinct[OF d])
qed

theorem one_outcome_per_eligible_witness:
  "main demo_env demo_fs = Inr (1, demo_final)
   \<and> eligible_subprojects demo_env demo_fs = [''core'', ''notification'']
   \<and> length (built_packages demo_final) + length (failed_packages demo_final) = 2
   \<and> count_list (built_packages demo_final) ''core''
       + count_list (failed_packages demo_final) ''core'' = 1
   \<and> count_list (built_packages demo_final) ''idp''
       + count_list (failed_packages demo_final) ''idp'' = 0"
  using one_outcome_per_eligible[OF demo_main, where p = "''core''"]
    one_outcome_per_eligible[OF demo_main, where p = "''idp''"]
    demo_main demo_eligible_subprojects
  by simp

text \<open>
  The claim as the specification states it fails: where the stale \<^verbatim>\<open>build\<close> directory
  of \<^verbatim>\<open>core\<close> may not be removed, \<^verbatim>\<open>core\<close> is eligible and the run ends without an
  outcome for it, so the two lists together are shorter than the list of the eligible
  candidates.
\<close>

theorem eligible_without_outcome:
  "main locked_env demo_fs = Inl (OSError PermissionError, locked_abort)
   \<and> eligible_subprojects locked_env demo_fs = [''core'']
   \<and> built_packages (final_state (main locked_env demo_fs)) = []
   \<and> failed_packages (final_state (main locked_env demo_fs)) = []
   \<and> length (built_packages (final_state (main locked_env demo_fs)))
       + length (failed_packages (final_state (main locked_env demo_fs)))
       \<noteq> length (eligible_subprojects locked_env demo_fs)"
  by (simp add: locked_main locked_eligible_subprojects final_state_def locked_abort_def demo_st0_def)




subsection \<open>Eligibility\<close>

text \<open>
  Claim C5, as the code has it. When the existence tests of a candidate return, the
  candidate is eligible if and only if its directory is there and the file
  \<^verbatim>\<open>pyproject.toml\<close> is there in it. The turn of a candidate found not eligible prints
  the notice and does nothing else: the file system (so no removal took place) and both
  result lists stay as they are. When a test raises instead, which it does exactly when
  the \<^verbatim>\<open>stat\<close> of the directory, or that of the descriptor of a directory that is
  there, is refused, the turn ends with that error and prints nothing. In a run that
  returns, a candidate that was not eligible at its turn has its notice on standard
  output and is in neither list, and an eligible one is announced as being built and is
  in one of the lists.
\<close>

theorem ineligible_skipped:
  "(eligible e f p = Inr b \<longrightarrow>
      (b \<longleftrightarrow> present f (python_dir e @ [p]) \<and> present f (python_dir e @ [p, ''pyproject.toml''])))
   \<and> (eligible e f p = Inl err \<longleftrightarrow>
        exists_path e f (python_dir e @ [p]) = Inl err
        \<or> exists_path e f (python_dir e @ [p]) = Inr True
          \<and> exists_path e f (python_dir e @ [p, ''pyproject.toml'']) = Inl err)
   \<and> (eligible e (files s) p = Inr False \<longrightarrow>
        build_package e c p s = Inr (s\<lparr>out := out s @ [Skipping p]\<rparr>))
   \<and> (eligible e (files s) p = Inl err \<longrightarrow> build_package e c p s = Inl (OSError err, s))
   \<and> (main e fs = Inr (rc, st) \<and> p \<in> set packages \<and> p \<notin> set (eligible_subprojects e fs) \<longrightarrow>
        Skipping p \<in> set (out st) \<and> p \<notin> set (built_packages st)
        \<and> p \<notin> set (failed_packages st))
   \<and> (main e fs = Inr (rc, st) \<and> p \<in> set (eligible_subprojects e fs) \<longrightarrow>
        Building p \<in> set (out st)
        \<and> (p \<in> set (built_packages st) \<or> p \<in> set (failed_packages st)))"
proof (intro conjI impI)
  assume "eligible e f p = Inr b"
  then show "b \<longleftrightarrow> present f (python_dir e @ [p]) \<and> present f (python_dir e @ [p, ''pyproject.toml''])"
    by (auto simp: eligible_def exists_path_eq split: if_splits)
next
  show "eligible e f p = Inl err \<longleftrightarrow>
        exists_path e f (python_dir e @ [p]) = Inl err
        \<or> exists_path e f (python_dir e @ [p]) = Inr True
          \<and> exists_path e f (python_dir e @ [p, ''pyproject.toml'']) = Inl err"
    by (auto simp: eligible_def split: sum.splits if_splits)
next
  assume "eligible e (files s) p = Inr False"
  then show "build_package e c p s = Inr (s\<lparr>out := out s @ [Skipping p]\<rparr>)"
    by (rule build_package_skip)
next
  assume "eligible e (files s) p = Inl err"
  then show "build_package e c p s = Inl (OSError err, s)"
    by (rule build_package_raise)
next
  assume a: "main e fs = Inr (rc, st) \<and> p \<in> set packages \<and> p \<notin> set (eligible_subprojects e fs)"
  then obtain c' st0 st1 where c: "python_cmd e fs = Inr c'" and s: "start e fs = Inr st0"
    and l: "build_packages e c' packages st0 = Inr st1" and su: "summary e st1 = Inr st"
    by (auto simp: main_Inr)
  have el: "eligible_subprojects e fs = eligible_at_turn e c' packages st0"
    by (simp add: eligible_subprojects_def c s)
  from summary_cases[of e st1 st] su obtain tail where
    o: "out st = out st1 @ Section ''Build Summary'' # tail"
    and same: "built_packages st = built_packages st1" "failed_packages st = failed_packages st1"
    by auto
  from loop_notices[OF l, of p] a have "Skipping p \<in> set (out st1)"
    by (simp add: el)
  with o show "Skipping p \<in> set (out st)" by simp
  from loop_lists[OF l] start_Inr[OF s] obtain bs fs' where
    b: "built_packages st1 = bs" "failed_packages st1 = fs'"
       "\<forall>q. count_list bs q + count_list fs' q = count_list (eligible_subprojects e fs) q"
    unfolding el by auto
  from a have "count_list (eligible_subprojects e fs) p = 0" by simp
  with b(3)[rule_format, of p] have "count_list bs p = 0" "count_list fs' p = 0" by simp_all
  then show "p \<notin> set (built_packages st)" "p \<notin> set (failed_packages st)"
    by (simp_all add: same b(1,2) count_list_0_iff)
next
  assume a: "main e fs = Inr (rc, st) \<and> p \<in> set (eligible_subprojects e fs)"
  then obtain c' st0 st1 where c: "python_cmd e fs = Inr c'" and s: "start e fs = Inr st0"
    and l: "build_packages e c' packages st0 = Inr st1" and su: "summary e st1 = Inr st"
    by (auto simp: main_Inr)
  have el: "eligible_subprojects e fs = eligible_at_turn e c' packages st0"
    by (simp add: eligible_subprojects_def c s)
  from summary_cases[of e st1 st] su obtain tail where
    o: "out st = out st1 @ Section ''Build Summary'' # tail"
    and same: "built_packages st = built_packages st1" "failed_packages st = failed_packages st1"
    by auto
  from a have mem: "p \<in> set packages"
    using eligible_at_turn_subseq[of e c' packages st0]
          list_emb_set[of "(=)" "eligible_subprojects e fs" packages p]
    by (auto simp: el)
  from loop_notices[OF l mem] a have "Building p \<in> set (out st1)"
    by (simp add: el)
  with o show "Building p \<in> set (out st)" by simp
  from loop_lists[OF l] start_Inr[OF s] obtain bs fs' where
    b: "built_packages st1 = bs" "failed_packages st1 = fs'"
       "\<forall>q. count_list bs q + count_list fs' q = count_list (eligible_subprojects e fs) q"
    unfolding el by auto
  from a have "count_list (eligible_subprojects e fs) p \<noteq> 0"
    using count_list_0_iff[of "eligible_subprojects e fs" p] by blast
  with b(3)[rule_format, of p] have "count_list bs p \<noteq> 0 \<or> count_list fs' p \<noteq> 0"
    by arith
  then show "p \<in> set (built_packages st) \<or> p \<in> set (failed_packages st)"
    by (auto simp: same b(1,2) count_list_0_iff)
qed

theorem ineligible_skipped_witness:
  "eligible demo_env (files demo_st1) ''idp'' = Inr False
   \<and> present (files demo_st1) [''w'', ''clients'', ''python'', ''idp'']
   \<and> \<not> present (files demo_st1) [''w'', ''clients'', ''python'', ''idp'', ''pyproject.toml'']
   \<and> build_package demo_env ''/usr/bin/python3'' ''idp'' demo_st1
       = Inr (demo_st1\<lparr>out := out demo_st1 @ [Skipping ''idp'']\<rparr>)
   \<and> eligible denied_env (files denied_abort) ''idp'' = Inl PermissionError
   \<and> exists_path denied_env (files denied_abort) [''w'', ''clients'', ''python'', ''idp''] = Inr True
   \<and> exists_path denied_env (files denied_abort)
         [''w'', ''clients'', ''python'', ''idp'', ''pyproject.toml''] = Inl PermissionError
   \<and> build_package denied_env ''/usr/bin/python3'' ''idp'' denied_abort
       = Inl (OSError PermissionError, denied_abort)
   \<and> main demo_env demo_fs = Inr (1, demo_final)
   \<and> ''idp'' \<in> set packages
   \<and> ''idp'' \<notin> set (eligible_subprojects demo_env demo_fs)
   \<and> Skipping ''idp'' \<in> set (out demo_final)
   \<and> ''idp'' \<notin> set (built_packages demo_final)
   \<and> ''idp'' \<notin> set (failed_packages demo_final)
   \<and> ''core'' \<in> set (eligible_subprojects demo_env demo_fs)
   \<and> Building ''core'' \<in> set (out demo_final)
   \<and> (''core'' \<in> set (built_packages demo_final) \<or> ''core'' \<in> set (failed_packages demo_final))"
proof -
  have a: "eligible demo_env (files demo_st1) ''idp'' = Inr False"
    using demo_env_eligible(2) by (simp add: demo_files)
  have b: "''idp'' \<in> set packages" by (simp add: packages_def)
  have c: "''idp'' \<notin> set (eligible_subprojects demo_env demo_fs)"
    "''core'' \<in> set (eligible_subprojects demo_env demo_fs)"
    by (simp_all add: demo_eligible_subprojects)
  have d: "eligible denied_env (files denied_abort) ''idp'' = Inl PermissionError"
    by (simp add: demo_files denied_idp_eligible)
  from ineligible_skipped[where e = demo_env and f = "files demo_st1" and b = False
      and s = demo_st1 and p = "''idp''"
      and c = "''/usr/bin/python3''" and fs = demo_fs and rc = 1 and st = demo_final]
    a b c demo_main
  have one: "\<not> (present (files demo_st1) [''w'', ''clients'', ''python'', ''idp'']
        \<and> present (files demo_st1) [''w'', ''clients'', ''python'', ''idp'', ''pyproject.toml''])
     \<and> build_package demo_env ''/usr/bin/python3'' ''idp'' demo_st1
         = Inr (demo_st1\<lparr>out := out demo_st1 @ [Skipping ''idp'']\<rparr>)
     \<and> Skipping ''idp'' \<in> set (out demo_final)
     \<and> ''idp'' \<notin> set (built_packages demo_final)
     \<and> ''idp'' \<notin> set (failed_packages demo_final)"
    by (simp add: demo_env_paths)
  have pr: "present (files demo_st1) [''w'', ''clients'', ''python'', ''idp'']"
    by (simp add: demo_files present_def demo_fs1_def demo_fs_clean_def)
  from ineligible_skipped[where e = demo_env and p = "''core''" and fs = demo_fs and rc = 1
      and st = demo_final]
    c demo_main
  have two: "Building ''core'' \<in> set (out demo_final)
     \<and> (''core'' \<in> set (built_packages demo_final) \<or> ''core'' \<in> set (failed_packages demo_final))"
    by simp
  from ineligible_skipped[where e = denied_env and f = "files denied_abort" and s = denied_abort
      and p = "''idp''" and err = PermissionError and c = "''/usr/bin/python3''"]
    d
  have three: "(exists_path denied_env (files denied_abort) [''w'', ''clients'', ''python'', ''idp'']
          = Inl PermissionError
        \<or> exists_path denied_env (files denied_abort) [''w'', ''clients'', ''python'', ''idp''] = Inr True
          \<and> exists_path denied_env (files denied_abort)
              [''w'', ''clients'', ''python'', ''idp'', ''pyproject.toml''] = Inl PermissionError)
     \<and> build_package denied_env ''/usr/bin/python3'' ''idp'' denied_abort
       = Inl (OSError PermissionError, denied_abort)"
    by (simp add: denied_facts)
  from one two three pr show ?thesis
    using a b c d demo_main denied_idp_eligible by (simp add: demo_files)
qed

text \<open>
  The claim as the specification states it fails: in the workspace where the directory
  of \<^verbatim>\<open>idp\<close> may not be searched, \<^verbatim>\<open>idp\<close> has no descriptor, so it is not eligible,
  and yet it is not skipped: its test raises, no notice is printed and the run ends there.
\<close>

theorem unsearchable_not_skipped:
  "present (files denied_abort) [''w'', ''clients'', ''python'', ''idp'']
   \<and> \<not> present (files denied_abort) [''w'', ''clients'', ''python'', ''idp'', ''pyproject.toml'']
   \<and> build_package denied_env ''/usr/bin/python3'' ''idp'' denied_abort
       = Inl (OSError PermissionError, denied_abort)
   \<and> main denied_env demo_fs = Inl (OSError PermissionError, denied_abort)
   \<and> announced (out denied_abort) = [''core'']
   \<and> Skipping ''idp'' \<notin> set (out denied_abort)"
proof -
  have "present (files denied_abort) [''w'', ''clients'', ''python'', ''idp'']"
    "\<not> present (files denied_abort) [''w'', ''clients'', ''python'', ''idp'', ''pyproject.toml'']"
    by (simp_all add: demo_files present_def demo_fs_clean_def)
  moreover have "announced (out denied_abort) = [''core'']"
    "Skipping ''idp'' \<notin> set (out denied_abort)"
    by (simp_all add: denied_abort_def demo_st0_def)
  ultimately show ?thesis
    by (simp only: denied_main denied_idp simp_thms)
qed

subsection \<open>The removal of stale directories\<close>




subsection \<open>Failures of the build tool\<close>

text \<open>
  The path that \<open>run_command\<close> handles. When the build tool of an eligible package
  exits with a non-zero code and its output can be decoded, \<open>run_command\<close> returns
  \<open>False\<close> together with the whole decoded standard error, and the turn of that package
  prints the failure line followed by that text and appends the package to the failures:
  the three lines of the turn directly follow what was printed before it, and the loop
  goes on with the remaining packages. In a run that returns they so precede the summary
  section, and the package is in the list of failures.
\<close>

lemma decoded_failure_printed_at_once:
  assumes "python_cmd e fs = Inr c" and "start e fs = Inr s_start" and "packages = xs @ p # ys"
    and "build_packages e c xs s_start = Inr s_before"
    and "eligible e (files s_before) p = Inr True"
    and "clean_previous_builds e (python_dir e @ [p]) (cleanup_dirs p) (files s_before) = Inr f_clean"
    and "spawn e (build_cmd e c) (python_dir e @ [p]) f_clean = Exited rc so se f_after"
    and "rc \<noteq> 0" and "decode e so = Some out_text" and "decode e se = Some err_text"
  shows "run_command e (build_cmd e c) (python_dir e @ [p]) f_clean = Inr ((False, err_text), f_after)
    \<and> (\<exists>st2. build_packages e c (xs @ [p]) s_start = Inr st2
          \<and> out st2 = out s_before @ [Building p, BuildFailed p, Output err_text]
          \<and> failed_packages st2 = failed_packages s_before @ [p]
          \<and> build_packages e c packages s_start = build_packages e c ys st2)
    \<and> (main e fs = Inr (rc', st) \<longrightarrow>
          p \<in> set (failed_packages st)
          \<and> (\<exists>mid tail. out st = out s_before @ [Building p, BuildFailed p, Output err_text] @ mid
                             @ Section ''Build Summary'' # tail))"
proof -
  have rc: "run_command e (build_cmd e c) (python_dir e @ [p]) f_clean = Inr ((False, err_text), f_after)"
    using assms(7-10) by (simp add: run_command_def subprocess_run_def)
  define st2 where "st2 = s_before\<lparr>files := f_after,
     out := out s_before @ [Building p, BuildFailed p, Output err_text],
     failed_packages := failed_packages s_before @ [p]\<rparr>"
  have bp: "build_package e c p s_before = Inr st2"
    using assms(5,6) rc by (simp add: build_package_def emit_def st2_def)
  have upto: "build_packages e c (xs @ [p]) s_start = Inr st2"
    using assms(4) bp by (simp add: build_packages_append)
  have whole: "build_packages e c packages s_start = build_packages e c ys st2"
    using assms(4) bp by (simp add: assms(3) build_packages_append)
  have o2: "out st2 = out s_before @ [Building p, BuildFailed p, Output err_text]"
    and f2: "failed_packages st2 = failed_packages s_before @ [p]"
    by (simp_all add: st2_def)
  have inr: "p \<in> set (failed_packages st)
          \<and> (\<exists>mid tail. out st = out s_before @ [Building p, BuildFailed p, Output err_text] @ mid
                             @ Section ''Build Summary'' # tail)"
    if "main e fs = Inr (rc', st)"
  proof -
    from that assms(1,2) obtain st3 where l: "build_packages e c ys st2 = Inr st3"
      and su: "summary e st3 = Inr st"
      by (auto simp: main_Inr whole)
    from summary_cases[of e st3 st] su obtain tail where
      o: "out st = out st3 @ Section ''Build Summary'' # tail"
      and same: "failed_packages st = failed_packages st3"
      by auto
    from loop_lists[OF l] have "p \<in> set (failed_packages st3)" by (auto simp: f2)
    then have "p \<in> set (failed_packages st)" by (simp add: same)
    moreover from loop_out_Inr[OF l] obtain mid where "out st3 = out st2 @ mid" by blast
    ultimately show ?thesis using o by (auto simp: o2)
  qed
  from rc upto o2 f2 whole inr show ?thesis by blast
qed

text \<open>
  Claim C8. The code breaks the claim where the standard error of the failed build tool
  is not text in the codec of the locale: \<^verbatim>\<open>subprocess.run\<close> then raises
  \<^verbatim>\<open>UnicodeDecodeError\<close>, which the single handler of \<open>run_command\<close>, written for
  \<^verbatim>\<open>CalledProcessError\<close>, lets through. With a build tool that exits with 1 after
  writing the byte \<^verbatim>\<open>0xFF\<close>, the run ends at \<^verbatim>\<open>core\<close> right after the announcement
  of its build: no failure line and no diagnostic is printed, no failure is recorded,
  and \<^verbatim>\<open>idp\<close> and \<^verbatim>\<open>notification\<close> never get their turn.
\<close>

theorem undecodable_stderr_aborts_run:
  "spawn garbled_env (build_cmd garbled_env ''/usr/bin/python3'')
       [''w'', ''clients'', ''python'', ''core''] demo_fs_clean
     = Exited 1 [] [CHR 0xFF] demo_fs_clean
   \<and> decode garbled_env [CHR 0xFF] = None
   \<and> run_command garbled_env (build_cmd garbled_env ''/usr/bin/python3'')
       [''w'', ''clients'', ''python'', ''core''] demo_fs_clean
     = Inl (UnicodeDecodeError, demo_fs_clean)
   \<and> main garbled_env demo_fs = Inl (UnicodeDecodeError, abort_at_core)
   \<and> out abort_at_core
     = [Section ''Building Python Packages for Distribution'',
        OutputDirectory [''w'', ''dist'', ''python''], Building ''core'']
   \<and> failed_packages abort_at_core = []
   \<and> exit_status garbled_env demo_fs = 1"
proof -
  have "out abort_at_core
     = [Section ''Building Python Packages for Distribution'',
        OutputDirectory [''w'', ''dist'', ''python''], Building ''core'']"
    "failed_packages abort_at_core = []"
    by (simp_all add: abort_at_core_def demo_st0_def)
  moreover have "exit_status garbled_env demo_fs = 1"
    by (simp add: exit_status_def garbled_main)
  ultimately show ?thesis
    by (simp only: garbled_main garbled_run garbled_facts simp_thms)
qed


text \<open>
  Claim C2, as the code has it. Nothing catches an exception of \<^verbatim>\<open>shutil.rmtree\<close>. When
  the removal of a stale directory fails, the removal of the remaining ones is not tried
  and the \<^verbatim>\<open>OSError\<close> leaves \<open>main\<close>: the run ends at that package, after the
  announcement of its build and before the build tool is started, with the result lists
  as the earlier packages left them, and the interpreter exits with 1.
\<close>

theorem removal_failure_aborts_run:
  "(clean_previous_builds e pd before f = Inr g \<and> exists_path e g (pd @ [d]) = Inr True
        \<and> rmtree e g (pd @ [d]) = Inl x \<longrightarrow>
        clean_previous_builds e pd (before @ d # after) f = Inl x)
   \<and> (python_cmd e fs = Inr c \<and> start e fs = Inr s_start \<and> packages = xs @ p # ys
        \<and> build_packages e c xs s_start = Inr s_before
        \<and> eligible e (files s_before) p = Inr True
        \<and> clean_previous_builds e (python_dir e @ [p]) (cleanup_dirs p) (files s_before) = Inl (err, fs') \<longrightarrow>
        main e fs = Inl (OSError err, s_before\<lparr>files := fs', out := out s_before @ [Building p]\<rparr>)
        \<and> exit_status e fs = 1)"
proof (intro conjI impI)
  assume "clean_previous_builds e pd before f = Inr g \<and> exists_path e g (pd @ [d]) = Inr True
        \<and> rmtree e g (pd @ [d]) = Inl x"
  then show "clean_previous_builds e pd (before @ d # after) f = Inl x"
    by (simp add: clean_append)
next
  assume a: "python_cmd e fs = Inr c \<and> start e fs = Inr s_start \<and> packages = xs @ p # ys
          \<and> build_packages e c xs s_start = Inr s_before
          \<and> eligible e (files s_before) p = Inr True
          \<and> clean_previous_builds e (python_dir e @ [p]) (cleanup_dirs p) (files s_before) = Inl (err, fs')"
  then have "build_package e c p s_before
               = Inl (OSError err, s_before\<lparr>files := fs', out := out s_before @ [Building p]\<rparr>)"
    by (simp add: build_package_def emit_def)
  with a show m: "main e fs = Inl (OSError err, s_before\<lparr>files := fs', out := out s_before @ [Building p]\<rparr>)"
    using main_abort_at by blast
  then show "exit_status e fs = 1" by (simp add: exit_status_def)
qed

theorem removal_failure_aborts_run_witness:
  "exists_path locked_env demo_fs [''w'', ''clients'', ''python'', ''core'', ''build''] = Inr True
   \<and> rmtree locked_env demo_fs [''w'', ''clients'', ''python'', ''core'', ''build'']
       = Inl (PermissionError, locked_fs)
   \<and> clean_previous_builds locked_env [''w'', ''clients'', ''python'', ''core'']
       ([] @ ''build'' # [''dist'', ''core.egg-info'', ''geniustechspace_core.egg-info'']) demo_fs
       = Inl (PermissionError, locked_fs)
   \<and> main locked_env demo_fs = Inl (OSError PermissionError, locked_abort)
   \<and> exit_status locked_env demo_fs = 1"
proof -
  have x: "exists_path locked_env demo_fs [''w'', ''clients'', ''python'', ''core'', ''build''] = Inr True"
    by (simp add: locked_facts demo_core_stale)
  have a: "packages = [] @ ''core'' # [''idp'', ''notification'']"
    by (simp add: packages_def)
  have b: "build_packages locked_env ''/usr/bin/python3'' [] demo_st0 = Inr demo_st0"
    by simp
  have c: "demo_st0\<lparr>files := locked_fs, out := out demo_st0 @ [Building ''core'']\<rparr> = locked_abort"
    by (simp add: locked_abort_def)
  have k: "clean_previous_builds locked_env [''w'', ''clients'', ''python'', ''core''] [] demo_fs
             = Inr demo_fs"
    by simp
  from removal_failure_aborts_run[where e = locked_env
      and pd = "[''w'', ''clients'', ''python'', ''core'']" and before = "[]" and f = demo_fs
      and g = demo_fs and d = "''build''" and x = "(PermissionError, locked_fs)"
      and after = "[''dist'', ''core.egg-info'', ''geniustechspace_core.egg-info'']"
      and fs = demo_fs and c = "''/usr/bin/python3''" and s_start = demo_st0 and xs = "[]"
      and p = "''core''"
      and ys = "[''idp'', ''notification'']" and s_before = demo_st0 and err = PermissionError
      and fs' = locked_fs]
    x k locked_rmtree locked_clean_core locked_facts a b c
  show ?thesis by (simp add: demo_files)
qed

text \<open>
  The claim as the specification states it fails: where the stale \<^verbatim>\<open>build\<close> directory
  of \<^verbatim>\<open>core\<close> may not be removed, the run ends at \<^verbatim>\<open>core\<close> with the
  \<^verbatim>\<open>PermissionError\<close>; no failure is recorded for \<^verbatim>\<open>core\<close>, and \<^verbatim>\<open>idp\<close> and
  \<^verbatim>\<open>notification\<close> never get their turn.
\<close>

theorem removal_failure_not_converted:
  "rmtree locked_env demo_fs [''w'', ''clients'', ''python'', ''core'', ''build'']
     = Inl (PermissionError, locked_fs)
   \<and> main locked_env demo_fs = Inl (OSError PermissionError, locked_abort)
   \<and> announced (out locked_abort) = [''core'']
   \<and> failed_packages locked_abort = []
   \<and> exit_status locked_env demo_fs = 1"
  by (simp add: locked_main locked_rmtree locked_abort_def demo_st0_def exit_status_def)


subsection \<open>The listing of wheel files\<close>

lemma make_dirs_append: "make_dirs e t fs ds = Inr fs' \<Longrightarrow> \<exists>new. fs' = fs @ new"
proof (induction ds arbitrary: fs)
  case Nil
  then show ?case by simp
next
  case (Cons d ds)
  show ?case
  proof (cases "map_of fs d")
    case None
    with Cons.prems have "make_dirs e t (fs @ [(d, Dir (dir_size e))]) ds = Inr fs'"
      by (simp split: option.splits)
    from Cons.IH[OF this] show ?thesis by auto
  next
    case (Some n)
    with Cons.prems have "make_dirs e t fs ds = Inr fs'"
      by (cases n) simp_all
    from Cons.IH[OF this] show ?thesis .
  qed
qed

text \<open>
  Claim C10, as the code has it. A run that returns ends its output with the wheel
  listing of the file system it leaves. The listing is printed whenever the existence
  test of the output directory returns and access to none of the files found is refused.
  The names listed are sorted in the lexicographic order of their characters; where the
  output directory may be listed they are the names of all entries directly in it that
  end in \<^verbatim>\<open>.whl\<close>, whatever put them there, and where it may not be listed there
  are none. The listing is empty, header included, exactly when the output directory is
  missing or the scan yields no such entry. The script itself never clears the output
  directory: creating it keeps every entry, and the removal of stale directories keeps
  every entry at or below it.
\<close>

theorem wheel_listing_sorted_complete:
  "(main e fs = Inr (rc, st) \<longrightarrow> (\<exists>l. wheel_listing e (files st) = Inr l \<and> suffix l (out st)))
   \<and> (exists_path e f (dist_dir e) = Inr found
        \<and> (\<forall>w\<in>set (glob_whl e f (dist_dir e)). \<not> denied e f w) \<longrightarrow>
        (\<exists>l. wheel_listing e f = Inr l))
   \<and> (wheel_listing e f = Inr l \<longrightarrow>
        listed_wheels l =
          (if exists_path e f (dist_dir e) = Inr True
           then sort (map last (glob_whl e f (dist_dir e))) else [])
        \<and> sorted (listed_wheels l)
        \<and> (exists_path e f (dist_dir e) = Inr True \<and> \<not> unreadable e f (dist_dir e) \<longrightarrow>
             set (listed_wheels l) = {n. suffix ''.whl'' n \<and> dist_dir e @ [n] \<in> fst ` set f})
        \<and> (unreadable e f (dist_dir e) \<longrightarrow> l = [])
        \<and> (l = [] \<longleftrightarrow>
             exists_path e f (dist_dir e) = Inr False \<or> glob_whl e f (dist_dir e) = []))
   \<and> (start e fs = Inr s \<longrightarrow> (\<exists>new. files s = fs @ new))
   \<and> ((dist_dir e @ [n], k) \<in> set f \<longrightarrow>
        (dist_dir e @ [n], k)
          \<in> set (left_behind (clean_previous_builds e (python_dir e @ [p]) (cleanup_dirs p) f)))"
proof (intro conjI impI)
  assume "main e fs = Inr (rc, st)"
  then obtain st1 where "summary e st1 = Inr st" by (auto simp: main_Inr)
  then show "\<exists>l. wheel_listing e (files st) = Inr l \<and> suffix l (out st)"
    by (rule summary_Inr)
next
  assume "exists_path e f (dist_dir e) = Inr found
        \<and> (\<forall>w\<in>set (glob_whl e f (dist_dir e)). \<not> denied e f w)"
  then show "\<exists>l. wheel_listing e f = Inr l"
    using wheel_listing_returns by blast
next
  assume w: "wheel_listing e f = Inr l"
  show a: "listed_wheels l =
          (if exists_path e f (dist_dir e) = Inr True
           then sort (map last (glob_whl e f (dist_dir e))) else [])"
    using w by (rule listed_wheels_listing)
  show "sorted (listed_wheels l)"
    unfolding a by simp
  show "set (listed_wheels l) = {n. suffix ''.whl'' n \<and> dist_dir e @ [n] \<in> fst ` set f}"
    if "exists_path e f (dist_dir e) = Inr True \<and> \<not> unreadable e f (dist_dir e)"
    using that glob_whl_names[of e f "dist_dir e"] unfolding a by simp
  show e: "l = [] \<longleftrightarrow> exists_path e f (dist_dir e) = Inr False \<or> glob_whl e f (dist_dir e) = []"
    using w by (auto simp: wheel_listing_def Let_def split: sum.splits prod.splits if_splits)
  show "l = []" if "unreadable e f (dist_dir e)"
    using that e by (simp add: glob_whl_def)
next
  assume "start e fs = Inr s"
  then obtain fs' where m: "mkdir_parents e fs (dist_dir e) = Inr fs'" and f: "files s = fs'"
    by (auto simp: start_def emit_def Let_def split: sum.splits prod.splits)
  from m have "\<exists>new. fs' = fs @ new"
    using make_dirs_append[of e "dist_dir e" fs _ fs']
    by (auto simp: mkdir_parents_def split: if_splits)
  with f show "\<exists>new. files s = fs @ new" by simp
next
  let ?r = "left_behind (clean_previous_builds e (python_dir e @ [p]) (cleanup_dirs p) f)"
  let ?out = "\<lambda>q. \<not> (\<exists>d\<in>set (cleanup_dirs p). prefix (python_dir e @ [p, d]) q)"
  assume a: "(dist_dir e @ [n], k) \<in> set f"
  have fr: "filter (\<lambda>(q, n). ?out q) ?r = filter (\<lambda>(q, n). ?out q) f"
    using clean_frame[of "cleanup_dirs p" "python_dir e @ [p]" e f] by simp
  have "?out (dist_dir e @ [n])"
    using dist_outside[of e "dist_dir e @ [n]" p] by auto
  with fr have "((dist_dir e @ [n], k) \<in> set ?r) = ((dist_dir e @ [n], k) \<in> set f)"
    using frame_lookup[of ?out ?r f "dist_dir e @ [n]" k] by blast
  with a show "(dist_dir e @ [n], k) \<in> set ?r" by simp
qed

theorem wheel_listing_sorted_complete_witness:
  "main demo_env demo_fs = Inr (1, demo_final)
   \<and> wheel_listing demo_env demo_fs1 = Inr demo_listing
   \<and> suffix demo_listing (out demo_final)
   \<and> exists_path demo_env demo_fs1 (dist_dir demo_env) = Inr True
   \<and> \<not> unreadable demo_env demo_fs1 (dist_dir demo_env)
   \<and> glob_whl demo_env demo_fs1 (dist_dir demo_env)
       = [[''w'', ''dist'', ''python'', ''old-0.0.9-py3-none-any.whl''],
          [''w'', ''dist'', ''python'', ''core-0.1.0-py3-none-any.whl'']]
   \<and> \<not> denied demo_env demo_fs1 [''w'', ''dist'', ''python'', ''old-0.0.9-py3-none-any.whl'']
   \<and> \<not> denied demo_env demo_fs1 [''w'', ''dist'', ''python'', ''core-0.1.0-py3-none-any.whl'']
   \<and> listed_wheels demo_listing
       = [''core-0.1.0-py3-none-any.whl'', ''old-0.0.9-py3-none-any.whl'']
   \<and> set (listed_wheels demo_listing)
       = {n. suffix ''.whl'' n \<and> dist_dir demo_env @ [n] \<in> fst ` set demo_fs1}
   \<and> glob_whl demo_env (files bare_st0) (dist_dir demo_env) = []
   \<and> wheel_listing demo_env (files bare_st0) = Inr []
   \<and> unreadable unreadable_env stale_fs (dist_dir unreadable_env)
   \<and> wheel_listing unreadable_env stale_fs = Inr []
   \<and> start demo_env demo_fs = Inr demo_st0
   \<and> (dist_dir demo_env @ [''old-0.0.9-py3-none-any.whl''], File 900) \<in> set demo_fs
   \<and> (dist_dir demo_env @ [''old-0.0.9-py3-none-any.whl''], File 900) \<in> set demo_fs_clean"
proof -
  have x: "exists_path demo_env demo_fs1 (dist_dir demo_env) = Inr True"
    by (simp add: demo_env_paths demo_env_exists present_def demo_fs1_def demo_fs_clean_def)
  have u: "\<not> unreadable demo_env demo_fs1 (dist_dir demo_env)"
    by (simp add: demo_env_fields)
  have dn: "\<forall>w\<in>set (glob_whl demo_env demo_fs1 (dist_dir demo_env)). \<not> denied demo_env demo_fs1 w"
    by (simp add: demo_env_fields)
  have g: "glob_whl demo_env demo_fs1 (dist_dir demo_env)
       = [[''w'', ''dist'', ''python'', ''old-0.0.9-py3-none-any.whl''],
          [''w'', ''dist'', ''python'', ''core-0.1.0-py3-none-any.whl'']]"
    by (simp add: demo_env_paths demo_glob)
  have o: "(dist_dir demo_env @ [''old-0.0.9-py3-none-any.whl''], File 900) \<in> set demo_fs"
    by (simp add: demo_env_paths demo_fs_def)
  have v: "unreadable unreadable_env stale_fs (dist_dir unreadable_env)"
    by (simp add: unreadable_paths)
  note t = wheel_listing_sorted_complete[where e = demo_env and fs = demo_fs and rc = 1
      and st = demo_final and f = demo_fs1 and l = demo_listing and found = True]
  from t demo_main obtain l' where "wheel_listing demo_env (files demo_final) = Inr l'"
    and "suffix l' (out demo_final)" by blast
  with demo_wheels have s: "suffix demo_listing (out demo_final)"
    by (simp add: demo_files)
  from t x dn obtain l'' where "wheel_listing demo_env demo_fs1 = Inr l''" by blast
  with demo_wheels have dw: "wheel_listing demo_env demo_fs1 = Inr demo_listing" by simp
  from t dw x g have l: "listed_wheels demo_listing
        = [''core-0.1.0-py3-none-any.whl'', ''old-0.0.9-py3-none-any.whl'']"
    by simp
  from t dw x u have c: "set (listed_wheels demo_listing)
        = {n. suffix ''.whl'' n \<and> dist_dir demo_env @ [n] \<in> fst ` set demo_fs1}"
    by blast
  from wheel_listing_sorted_complete[where e = demo_env and f = "files bare_st0" and l = "[]"]
    bare_dist
  have b: "glob_whl demo_env (files bare_st0) (dist_dir demo_env) = []" by simp
  from wheel_listing_sorted_complete[where e = unreadable_env and f = stale_fs and found = True
      and l = "[]"]
    stale_listing(1,2)
  have "\<exists>m. wheel_listing unreadable_env stale_fs = Inr m" by simp
  then obtain m where m: "wheel_listing unreadable_env stale_fs = Inr m" ..
  from wheel_listing_sorted_complete[where e = unreadable_env and f = stale_fs and l = m] m v
  have "m = []" by blast
  with m have w: "wheel_listing unreadable_env stale_fs = Inr []" by simp
  from wheel_listing_sorted_complete[where e = demo_env and f = demo_fs and p = "''core''"
      and n = "''old-0.0.9-py3-none-any.whl''" and k = "File 900"] o
  have r: "(dist_dir demo_env @ [''old-0.0.9-py3-none-any.whl''], File 900) \<in> set demo_fs_clean"
    by (simp add: demo_env_paths demo_env_clean_core left_behind_def)
  have d: "\<not> denied demo_env demo_fs1 p" for p
    by (simp add: demo_env_fields)
  show ?thesis
    by (intro conjI) (rule demo_main dw s x u d g l c b bare_dist(3) v w demo_env_start o r)+
qed

text \<open>
  The claim as the specification states it fails: where the output directory may not be
  listed, the run returns, the wheel of an earlier run is in the output directory at
  summary time, and no wheel is listed: the section is left out.
\<close>

theorem unreadable_directory_not_listed:
  "main unreadable_env stale_fs = Inr (0, stale_final)
   \<and> ([''w'', ''dist'', ''python'', ''old-0.0.9-py3-none-any.whl''], File 900)
       \<in> set (files stale_final)
   \<and> dist_dir unreadable_env = [''w'', ''dist'', ''python'']
   \<and> listed_wheels (out stale_final) = []
   \<and> WheelHeader \<notin> set (out stale_final)"
proof -
  have "([''w'', ''dist'', ''python'', ''old-0.0.9-py3-none-any.whl''], File 900)
       \<in> set (files stale_final)"
    by (simp add: stale_final_def stale_fs_def)
  moreover have "listed_wheels (out stale_final) = []" "WheelHeader \<notin> set (out stale_final)"
    by (simp_all add: stale_final_def)
  ultimately show ?thesis
    by (simp only: stale_main unreadable_paths simp_thms)
qed

end
